theory Spec2Isabelle
  imports Main "HOL-Library.Word" "HOL-Library.Monad_Syntax"
begin

unbundle bit_operations_syntax

section \<open>The data model of GSCore\<close>

text \<open>
  A shallow embedding of \<^verbatim>\<open>src/GSModule/GSCore.cpp\<close>, the protocol engine of the
  Gainspan serial-to-wifi driver. The class declaration (\<^verbatim>\<open>GSCore.h\<close>) is not
  modelled: every constant, enumerator value and type that only the header fixes is a
  field of the record \<open>GSConfig\<close>, passed to the functions that use it, and the size
  of an array is the length of its list. The theorems hold for every such configuration,
  under the hypotheses they state.

  Conventions.
  \<^item> A function that changes members of the object takes the object (a record \<open>GSCore\<close>)
    and returns the new one.
  \<^item> The result is an \<open>option\<close>; \<open>None\<close> stands for an execution this model does
    not follow: an array index out of bounds (undefined behaviour in C++), a trace of the
    platform read past its end, or a loop that ran out of fuel.
  \<^item> \<^verbatim>\<open>uint8_t\<close> and \<^verbatim>\<open>uint16_t\<close> are \<open>8 word\<close> and \<open>16 word\<close>; an \<^verbatim>\<open>int\<close>
    that is a byte or -1 is an \<open>8 word option\<close> (\<open>None\<close> is -1).
  \<^item> Output to the \<^verbatim>\<open>debug\<close> and \<^verbatim>\<open>error\<close> print streams does not change
    the object and is left out, except in \<open>writeCommand\<close>, which returns what it logs.
\<close>

type_synonym byte = "8 word"
type_synonym cid_t = "8 word"

datatype GSEvent =
  EVENT_ASSOCIATED | EVENT_DISASSOCIATED | EVENT_NCM_CONNECTED | EVENT_NCM_DISCONNECTED

datatype GSRxState =
  GS_RX_IDLE | GS_RX_ESC | GS_RX_ESC_Z | GS_RX_ESC_A
  | GS_RX_ESC_y_1 | GS_RX_ESC_y_2 | GS_RX_ESC_y_3 | GS_RX_ASYNC | GS_RX_BULK

datatype GSResponse =
  GS_UNKNOWN_RESPONSE | GS_RESPONSE_TIMEOUT | GS_UNRECOVERABLE_ERROR
  | GS_SUCCESS | GS_FAILURE | GS_EINVAL | GS_SOCK_FAIL | GS_ENOCID | GS_EBADCID
  | GS_ENOTSUP | GS_CON_SUCCESS | GS_ECIDCLOSE | GS_LINK_LOST | GS_DISASSO_EVT
  | GS_STBY_TMR_EVT | GS_STBY_ALM_EVT | GS_DPSLEEP_EVT | GS_BOOT_UNEXPEC | GS_ENOIP
  | GS_BOOT_INTERNAL | GS_BOOT_EXTERNAL | GS_NWCONN_SUCCESS

record Connection =
  connected :: bool
  error :: bool
  ssl :: bool
  remote_ip :: "32 word"
  remote_port :: "16 word"
  local_port :: "16 word"

text \<open>\<^verbatim>\<open>IPAddress\<close> is the Arduino class: four octets, indexed by \<^verbatim>\<open>operator[]\<close>.\<close>

type_synonym IPAddress = "byte list"

record RXFrame =
  cid :: cid_t
  length' :: "16 word"
  udp_server :: bool
  ip :: IPAddress
  port :: "16 word"

record GSConfig =
  frame_size :: nat              \<comment> \<open>\<^verbatim>\<open>sizeof(RXFrame)\<close>\<close>
  frame_bytes :: "RXFrame \<Rightarrow> byte list"   \<comment> \<open>the object representation \<^verbatim>\<open>memcpy\<close> reads\<close>
  bytes_frame :: "byte list \<Rightarrow> RXFrame"   \<comment> \<open>the frame \<^verbatim>\<open>memcpy\<close> writes from bytes\<close>
  frame_valid :: "RXFrame \<Rightarrow> bool"        \<comment> \<open>\<^verbatim>\<open>RXFrame::operator bool\<close>\<close>
  null_frame :: RXFrame          \<comment> \<open>the value of \<^verbatim>\<open>RXFrame()\<close>\<close>
  MAX_CID :: nat
  INVALID_CID :: cid_t
  ANY_CID :: cid_t
  INVALID_PIN :: byte
  MAX_RESPONSE_SIZE :: nat
  RESPONSE_TIMEOUT :: nat
  GS_LOG_ERRORS :: bool
  MINIMUM_POLL_INTERVAL :: nat
  SPI_SPECIAL_ALL_ONE :: byte
  SPI_SPECIAL_ALL_ZERO :: byte
  SPI_SPECIAL_ACK :: byte
  SPI_SPECIAL_IDLE :: byte
  SPI_SPECIAL_XOFF :: byte
  SPI_SPECIAL_XON :: byte
  SPI_SPECIAL_ESC :: byte
  SPI_ESC_XOR :: byte
  response_value :: "GSResponse \<Rightarrow> int"   \<comment> \<open>the value of each enumerator of \<^verbatim>\<open>GSResponse\<close>\<close>
  error_stream :: bool           \<comment> \<open>\<^verbatim>\<open>this->error != NULL\<close>: an error stream is registered\<close>

record GSCore =
  serial :: bool                 \<comment> \<open>\<^verbatim>\<open>this->serial != NULL\<close>\<close>
  ss_pin :: byte
  data_ready_pin :: byte
  unrecoverableError :: bool
  initializing :: bool
  rx_state :: GSRxState
  rx_data :: "byte list"          \<comment> \<open>the array; \<^verbatim>\<open>sizeof(rx_data)\<close> is its length\<close>
  rx_data_head :: nat
  rx_data_tail :: nat
  head_frame :: RXFrame
  tail_frame :: RXFrame
  rx_async :: "byte list"         \<comment> \<open>the array; \<^verbatim>\<open>sizeof(rx_async)\<close> is its length\<close>
  rx_async_len :: byte
  rx_async_left :: byte
  rx_async_subtype :: byte
  spi_prev_was_esc :: bool
  spi_xoff :: bool
  errorcount :: byte             \<comment> \<open>the \<^verbatim>\<open>static\<close> local of \<^verbatim>\<open>processSpiSpecial\<close>\<close>
  spi_poll_time :: "16 word"
  ncm_auto_cid :: cid_t
  events :: "GSEvent set"        \<comment> \<open>the bit mask, one bit per event\<close>
  associated :: bool
  connections :: "Connection list"
  \<comment> \<open>the platform: what the Arduino calls will return, and what has been sent\<close>
  serial_rx :: "byte list"       \<comment> \<open>bytes \<^verbatim>\<open>serial->read()\<close> will return; empty: -1\<close>
  serial_tx :: "byte list"       \<comment> \<open>bytes given to \<^verbatim>\<open>serial->write\<close>\<close>
  spi_rx :: "byte list"          \<comment> \<open>bytes the next calls of \<^verbatim>\<open>SPI.transfer\<close> return\<close>
  spi_tx :: "byte list"          \<comment> \<open>bytes given to \<^verbatim>\<open>SPI.transfer\<close>\<close>
  pin_trace :: "bool list"       \<comment> \<open>results of \<^verbatim>\<open>digitalRead(data_ready_pin)\<close>\<close>
  micros_trace :: "16 word list" \<comment> \<open>results of \<^verbatim>\<open>micros()\<close>, truncated to 16 bits\<close>
  millis_trace :: "32 word list" \<comment> \<open>results of \<^verbatim>\<open>millis()\<close>\<close>

section \<open>Parsing helpers\<close>

text \<open>
  A parser that returns \<^verbatim>\<open>bool\<close> and stores its result through a pointer returns an
  \<open>option\<close> here: \<open>Some v\<close> when the C++ returns true and stores \<open>v\<close>, \<open>None\<close> when it
  returns false. The buffer is the list of the \<^verbatim>\<open>len\<close> bytes at \<^verbatim>\<open>buf\<close>.
\<close>

definition bytes :: "string \<Rightarrow> byte list" where
  "bytes cs = map (\<lambda>c. of_nat (of_char c)) cs"

definition is_digit :: "byte \<Rightarrow> bool" where
  "is_digit c \<longleftrightarrow> 0x30 \<le> c \<and> c \<le> 0x39"

text \<open>The loop of \<open>parseNumber(uint16_t *out, ...)\<close>, with \<open>r\<close> the running result.\<close>

fun parseNumber_loop :: "16 word \<Rightarrow> 16 word \<Rightarrow> byte list \<Rightarrow> 16 word option" where
  "parseNumber_loop base r [] = Some r"
| "parseNumber_loop base r (c # cs) =
     (if r > 6553 then None                \<comment> \<open>\<open>max_for_type(uint16_t) / 10\<close>\<close>
      else let r1 = r * base in
        if 0x30 \<le> c \<and> c \<le> 0x39 then parseNumber_loop base (r1 + ucast (c - 0x30)) cs
        else if 0x61 \<le> c \<and> c \<le> 0x7A then parseNumber_loop base (r1 + 10 + ucast (c - 0x61)) cs
        else if 0x41 \<le> c \<and> c \<le> 0x5A then parseNumber_loop base (r1 + 10 + ucast (c - 0x41)) cs
        else None)"

definition parseNumber16 :: "byte list \<Rightarrow> byte \<Rightarrow> 16 word option" where
  "parseNumber16 buf base =
     (if base < 2 \<or> base > 36 then None else parseNumber_loop (ucast base) 0 buf)"

definition parseNumber8 :: "byte list \<Rightarrow> byte \<Rightarrow> byte option" where
  "parseNumber8 buf base =
     (case parseNumber16 buf base of
        None \<Rightarrow> None
      | Some tmp \<Rightarrow> if tmp > 255 then None else Some (ucast tmp))"

text \<open>
  The loop of \<open>parseIpAddress\<close> over the characters from \<open>p\<close> to \<open>end\<close>: \<open>i\<close> is
  the octet being read, \<open>a\<close> the address. The octets are \<^verbatim>\<open>uint8_t\<close>, so \<open>*= 10\<close>
  and \<open>+=\<close> wrap. The loop stops at a NUL character. The comparisons of \<^verbatim>\<open>*p\<close>
  with the digits reject every byte above 127 whether \<^verbatim>\<open>char\<close> is signed or not.
\<close>

fun parseIp_loop :: "nat \<Rightarrow> IPAddress \<Rightarrow> byte list \<Rightarrow> bool \<times> IPAddress" where
  "parseIp_loop i a [] = (True, a)"
| "parseIp_loop i a (c # cs) =
     (if c = 0 then (True, a)
      else if c = 0x2E then
        (if Suc i \<ge> 4 then (False, a) else parseIp_loop (Suc i) (a[Suc i := 0]) cs)
      else if c < 0x30 \<or> c > 0x39 then (False, a)
      else if a ! i \<ge> 100 \<or> (a ! i = 25 \<and> c > 0x35) then (False, a)
      else parseIp_loop i (a[i := a ! i * 10 + (c - 0x30)]) cs)"

text \<open>
  \<open>str\<close> is the memory at \<^verbatim>\<open>str\<close>, up to the end of its array; \<open>len = 0\<close> is the
  call without a length (\<^verbatim>\<open>end == NULL\<close>). The result is the return value and \<^verbatim>\<open>*ip\<close>.
\<close>

definition parseIpAddress :: "byte list \<Rightarrow> nat \<Rightarrow> bool \<times> IPAddress" where
  "parseIpAddress str len = parseIp_loop 0 [0, 0, 0, 0] (if len = 0 then str else take len str)"

section \<open>The synchronous response parser\<close>

definition all_responses :: "GSResponse list" where
  "all_responses =
     [GS_UNKNOWN_RESPONSE, GS_RESPONSE_TIMEOUT, GS_UNRECOVERABLE_ERROR,
      GS_SUCCESS, GS_FAILURE, GS_EINVAL, GS_SOCK_FAIL, GS_ENOCID, GS_EBADCID, GS_ENOTSUP,
      GS_CON_SUCCESS, GS_ECIDCLOSE, GS_LINK_LOST, GS_DISASSO_EVT, GS_STBY_TMR_EVT,
      GS_STBY_ALM_EVT, GS_DPSLEEP_EVT, GS_BOOT_UNEXPEC, GS_ENOIP, GS_BOOT_INTERNAL,
      GS_BOOT_EXTERNAL, GS_NWCONN_SUCCESS]"

text \<open>
  The cast \<^verbatim>\<open>(GSResponse)n\<close>: the enumerator whose value is \<open>n\<close>, or \<open>None\<close> when the
  enumeration has none (the \<^verbatim>\<open>switch\<close> then takes its \<^verbatim>\<open>default\<close>).
\<close>

definition to_GSResponse :: "GSConfig \<Rightarrow> int \<Rightarrow> GSResponse option" where
  "to_GSResponse cfg n = find (\<lambda>r. response_value cfg r = n) all_responses"

text \<open>
  \<open>processResponseLine buf connect_cid\<close>: \<open>buf\<close> is the line (its \<^verbatim>\<open>len\<close> bytes),
  \<open>connect_cid\<close> is \<open>None\<close> for a NULL pointer and \<open>Some v\<close> for a pointer to a cell that
  holds \<open>v\<close>. The result is the response and the cell afterwards. The \<^verbatim>\<open>case\<close> labels
  of the asynchronous responses stand inside an \<^verbatim>\<open>if\<close> block, which a \<^verbatim>\<open>switch\<close>
  enters without testing the condition: they print to \<^verbatim>\<open>this->error\<close>, a NULL pointer
  when no error stream is registered (\<open>None\<close> here), and return
  \<open>GS_UNKNOWN_RESPONSE\<close>.
\<close>

definition response_switch ::
  "GSConfig \<Rightarrow> GSResponse option \<Rightarrow> byte list \<Rightarrow> cid_t option
     \<Rightarrow> (GSResponse \<times> cid_t option) option" where
  "response_switch cfg code args connect_cid =
     (let arg_len = length args in
      if arg_len \<noteq> 0 \<and> args ! 0 \<noteq> 0x20 then Some (GS_UNKNOWN_RESPONSE, connect_cid)
      else case code of
        None \<Rightarrow> Some (GS_UNKNOWN_RESPONSE, connect_cid)
      | Some c \<Rightarrow>
        if c \<in> {GS_SUCCESS, GS_FAILURE, GS_EINVAL, GS_ENOCID, GS_EBADCID, GS_ENOTSUP,
                 GS_LINK_LOST, GS_ENOIP} then
          (if arg_len \<noteq> 0 then Some (GS_UNKNOWN_RESPONSE, connect_cid)
           else Some (c, connect_cid))
        else if c = GS_SOCK_FAIL then
          (if arg_len \<noteq> 2 then Some (GS_UNKNOWN_RESPONSE, connect_cid)
           else Some (c, connect_cid))
        else if c = GS_CON_SUCCESS then
          (if arg_len \<noteq> 2 then Some (GS_UNKNOWN_RESPONSE, connect_cid)
           else if connect_cid = None then Some (GS_UNKNOWN_RESPONSE, connect_cid)
           else case parseNumber8 [args ! 1] 16 of
                  None \<Rightarrow> Some (GS_UNKNOWN_RESPONSE, connect_cid)
                | Some v \<Rightarrow> Some (c, Some v))
        else if c \<in> {GS_DISASSO_EVT, GS_STBY_TMR_EVT, GS_STBY_ALM_EVT, GS_DPSLEEP_EVT,
                      GS_BOOT_UNEXPEC, GS_BOOT_INTERNAL, GS_BOOT_EXTERNAL, GS_NWCONN_SUCCESS} then
          (if arg_len > 0 then Some (GS_UNKNOWN_RESPONSE, connect_cid)
           else if error_stream cfg then Some (GS_UNKNOWN_RESPONSE, connect_cid)
           else None)
        else if c = GS_ECIDCLOSE then
          (if arg_len > 2 then Some (GS_UNKNOWN_RESPONSE, connect_cid)
           else if error_stream cfg then Some (GS_UNKNOWN_RESPONSE, connect_cid)
           else None)
        else Some (GS_UNKNOWN_RESPONSE, connect_cid))"

definition processResponseLine ::
  "GSConfig \<Rightarrow> byte list \<Rightarrow> cid_t option \<Rightarrow> (GSResponse \<times> cid_t option) option" where
  "processResponseLine cfg buf connect_cid =
     (let len = length buf in
      if len \<ge> 2 \<and> buf ! 0 = 0x31 \<and> buf ! 1 \<ge> 0x30 \<and> buf ! 1 \<le> 0x38 then
        response_switch cfg (to_GSResponse cfg (10 + uint (buf ! 1) - 0x30)) (drop 2 buf) connect_cid
      else if len \<ge> 1 \<and> buf ! 0 \<ge> 0x30 \<and> buf ! 0 \<le> 0x39 then
        response_switch cfg (to_GSResponse cfg (uint (buf ! 0) - 0x30)) (drop 1 buf) connect_cid
      else if len = 2 \<and> buf ! 0 = 0x4F \<and> buf ! 1 = 0x4B then
        response_switch cfg (Some GS_SUCCESS) (drop 2 buf) connect_cid
      else Some (GS_UNKNOWN_RESPONSE, connect_cid))"

section \<open>Association and connection events\<close>

definition conn_at :: "GSCore \<Rightarrow> cid_t \<Rightarrow> Connection option" where
  "conn_at s c = (if unat c < length (connections s) then Some (connections s ! unat c) else None)"

definition conn_upd :: "cid_t \<Rightarrow> (Connection \<Rightarrow> Connection) \<Rightarrow> GSCore \<Rightarrow> GSCore" where
  "conn_upd c f s = s\<lparr>connections := (connections s)[unat c := f (connections s ! unat c)]\<rparr>"

definition processDisconnect :: "GSConfig \<Rightarrow> cid_t \<Rightarrow> GSCore \<Rightarrow> GSCore option" where
  "processDisconnect cfg c s = do {
     con \<leftarrow> conn_at s c;
     if \<not> connected con then Some s
     else let s1 = conn_upd c (\<lambda>k. k\<lparr>connected := False, ssl := False\<rparr>) s in
       if c = ncm_auto_cid s1 then
         Some (s1\<lparr>ncm_auto_cid := INVALID_CID cfg,
                  events := (if EVENT_NCM_CONNECTED \<in> events s1
                             then events s1 - {EVENT_NCM_CONNECTED}
                             else insert EVENT_NCM_DISCONNECTED (events s1))\<rparr>)
       else Some s1
   }"

text \<open>The loop of \<open>processDisassociation\<close>, over the cids still to visit.\<close>

fun disassociate_loop :: "GSConfig \<Rightarrow> nat list \<Rightarrow> GSCore \<Rightarrow> GSCore option" where
  "disassociate_loop cfg [] s = Some s"
| "disassociate_loop cfg (c # cs) s = do {
     con \<leftarrow> conn_at s (of_nat c);
     s1 \<leftarrow> (if connected con
            then processDisconnect cfg (of_nat c) (conn_upd (of_nat c) (\<lambda>k. k\<lparr>error := True\<rparr>) s)
            else Some s);
     disassociate_loop cfg cs s1
   }"

definition processDisassociation :: "GSConfig \<Rightarrow> GSCore \<Rightarrow> GSCore option" where
  "processDisassociation cfg s =
     (if \<not> associated s then Some s
      else if 255 \<le> MAX_CID cfg then None   \<comment> \<open>the \<^verbatim>\<open>cid_t\<close> counter never passes \<^verbatim>\<open>MAX_CID\<close>\<close>
      else let s1 = s\<lparr>events := (if EVENT_ASSOCIATED \<in> events s
                                 then events s - {EVENT_ASSOCIATED}
                                 else insert EVENT_DISASSOCIATED (events s))\<rparr>;
               s2 = s1\<lparr>associated := False\<rparr>
           in disassociate_loop cfg [0..<Suc (MAX_CID cfg)] s2)"

definition processAssociation :: "GSConfig \<Rightarrow> GSCore \<Rightarrow> GSCore option" where
  "processAssociation cfg s = do {
     s1 \<leftarrow> (if associated s then processDisassociation cfg s else Some s);
     Some (s1\<lparr>associated := True, events := insert EVENT_ASSOCIATED (events s1)\<rparr>)
   }"

definition processConnect ::
  "GSConfig \<Rightarrow> cid_t \<Rightarrow> 32 word \<Rightarrow> 16 word \<Rightarrow> 16 word \<Rightarrow> bool \<Rightarrow> GSCore \<Rightarrow> GSCore option" where
  "processConnect cfg c rip rport lport ncm s = do {
     con \<leftarrow> conn_at s c;
     s1 \<leftarrow> (if connected con then processDisconnect cfg c s else Some s);
     let s2 = (if ncm then s1\<lparr>ncm_auto_cid := c, events := insert EVENT_NCM_CONNECTED (events s1)\<rparr>
               else s1);
     Some (conn_upd c (\<lambda>k. k\<lparr>remote_ip := rip, remote_port := rport, local_port := lport,
                              error := False, connected := True\<rparr>) s2)
   }"

text \<open>
  The dispatch of \<open>loop\<close>, after \<open>readAndProcessAsync\<close>: the callbacks invoked, in
  order, and the events left. \<open>cb e\<close> says that a callback is registered for \<open>e\<close>.
\<close>

definition dispatch :: "(GSEvent \<Rightarrow> bool) \<Rightarrow> GSCore \<Rightarrow> GSEvent list \<times> GSCore" where
  "dispatch cb s =
     (let fired = filter (\<lambda>e. cb e \<and> e \<in> events s)
            [EVENT_NCM_DISCONNECTED, EVENT_DISASSOCIATED, EVENT_ASSOCIATED, EVENT_NCM_CONNECTED]
      in (fired, s\<lparr>events := events s - set fired\<rparr>))"

section \<open>Asynchronous messages\<close>

text \<open>The enumeration \<^verbatim>\<open>GSAsync\<close> of the source file.\<close>

definition GS_ASYNC_SOCK_FAIL :: byte where "GS_ASYNC_SOCK_FAIL = 0x0"
definition GS_ASYNC_CON_SUCCESS :: byte where "GS_ASYNC_CON_SUCCESS = 0x1"
definition GS_ASYNC_ECIDCLOSE :: byte where "GS_ASYNC_ECIDCLOSE = 0x2"
definition GS_ASYNC_DISASSO_EVT :: byte where "GS_ASYNC_DISASSO_EVT = 0x3"
definition GS_ASYNC_STBY_TMR_EVT :: byte where "GS_ASYNC_STBY_TMR_EVT = 0x4"
definition GS_ASYNC_STBY_ALM_EVT :: byte where "GS_ASYNC_STBY_ALM_EVT = 0x5"
definition GS_ASYNC_DPSLEEP_EVT :: byte where "GS_ASYNC_DPSLEEP_EVT = 0x6"
definition GS_ASYNC_BOOT_UNEXPEC :: byte where "GS_ASYNC_BOOT_UNEXPEC = 0x7"
definition GS_ASYNC_ENOIP :: byte where "GS_ASYNC_ENOIP = 0x8"
definition GS_ASYNC_BOOT_INTERNAL :: byte where "GS_ASYNC_BOOT_INTERNAL = 0x9"
definition GS_ASYNC_BOOT_EXTERNAL :: byte where "GS_ASYNC_BOOT_EXTERNAL = 0xa"
definition GS_ASYNC_FAILURE :: byte where "GS_ASYNC_FAILURE = 0xb"
definition GS_ASYNC_NWCONN_SUCCESS :: byte where "GS_ASYNC_NWCONN_SUCCESS = 0xc"
definition GS_ASYNC_MAX :: byte where "GS_ASYNC_MAX = GS_ASYNC_NWCONN_SUCCESS"

text \<open>Reading \<^verbatim>\<open>rx_async[i]\<close>, and the \<open>n\<close> bytes from \<^verbatim>\<open>rx_async + off\<close>.\<close>

definition async_at :: "GSCore \<Rightarrow> nat \<Rightarrow> byte option" where
  "async_at s i = (if i < length (rx_async s) then Some (rx_async s ! i) else None)"

definition async_slice :: "GSCore \<Rightarrow> nat \<Rightarrow> nat \<Rightarrow> byte list option" where
  "async_slice s off n =
     (if off + n \<le> length (rx_async s) then Some (take n (drop off (rx_async s))) else None)"

text \<open>
  The \<^verbatim>\<open>switch\<close> of \<open>processAsync\<close> on the subtype, after the checks on the
  payload. In the case of \<^verbatim>\<open>GS_ASYNC_SOCK_FAIL\<close> and \<^verbatim>\<open>GS_ASYNC_ECIDCLOSE\<close> the source
  compares the subtype with \<^verbatim>\<open>GS_SOCK_FAIL\<close>, an enumerator of \<^verbatim>\<open>GSResponse\<close>.
\<close>

definition async_switch :: "GSConfig \<Rightarrow> byte \<Rightarrow> GSCore \<Rightarrow> (bool \<times> GSCore) option" where
  "async_switch cfg arg_len s =
     (let subtype = rx_async_subtype s in
      if subtype = GS_ASYNC_CON_SUCCESS then
        (if arg_len < 2 then Some (False, s)
         else if arg_len = 2 then do {
           b \<leftarrow> async_at s 2;
           case parseNumber8 [b] 16 of
             None \<Rightarrow> Some (False, s)
           | Some c \<Rightarrow> do { s1 \<leftarrow> processConnect cfg c 0 0 0 True s; Some (True, s1) }
         }
         else Some (False, s))
      else if subtype = GS_ASYNC_SOCK_FAIL \<or> subtype = GS_ASYNC_ECIDCLOSE then
        (if arg_len \<noteq> 2 then Some (False, s)
         else do {
           b \<leftarrow> async_at s 2;
           case parseNumber8 [b] 16 of
             None \<Rightarrow> Some (False, s)
           | Some c \<Rightarrow> do {
               s1 \<leftarrow> (if uint subtype = response_value cfg GS_SOCK_FAIL
                      then do { _ \<leftarrow> conn_at s c; Some (conn_upd c (\<lambda>k. k\<lparr>error := True\<rparr>) s) }
                      else Some s);
               s2 \<leftarrow> processDisconnect cfg c s1;
               Some (True, s2)
             }
         })
      else if arg_len > 0 then Some (False, s)
      else if subtype = GS_ASYNC_FAILURE then Some (False, s)
      else if subtype = GS_ASYNC_DISASSO_EVT then
        do { s1 \<leftarrow> processDisassociation cfg s; Some (True, s1) }
      else if subtype = GS_ASYNC_STBY_TMR_EVT \<or> subtype = GS_ASYNC_STBY_ALM_EVT
              \<or> subtype = GS_ASYNC_DPSLEEP_EVT then Some (False, s)
      else if subtype = GS_ASYNC_BOOT_UNEXPEC \<or> subtype = GS_ASYNC_BOOT_INTERNAL
              \<or> subtype = GS_ASYNC_BOOT_EXTERNAL then
        (if initializing s then Some (True, s) else Some (False, s))
      else if subtype = GS_ASYNC_NWCONN_SUCCESS then
        do { s1 \<leftarrow> processAssociation cfg s; Some (True, s1) }
      else if subtype = GS_ASYNC_ENOIP then
        do { s1 \<leftarrow> processDisassociation cfg s; Some (True, s1) }
      else Some (False, s))"

definition processAsync :: "GSConfig \<Rightarrow> GSCore \<Rightarrow> (bool \<times> GSCore) option" where
  "processAsync cfg s =
     (if rx_async_subtype s > GS_ASYNC_MAX then Some (False, s)
      else if rx_async_len s < 1 then Some (False, s)
      else do {
        b \<leftarrow> async_at s 0;
        case parseNumber8 [b] 16 of
          None \<Rightarrow> Some (False, s)
        | Some subtype \<Rightarrow>
            if subtype \<noteq> rx_async_subtype s then Some (False, s)
            else do {
              let arg_len = rx_async_len s - 1;
              a0 \<leftarrow> (if arg_len \<noteq> 0 then async_at s 1 else Some 0x20);
              if arg_len \<noteq> 0 \<and> a0 \<noteq> 0x20 then Some (False, s)
              else async_switch cfg arg_len s
            }
      })"

section \<open>The SPI link framer and the raw transport\<close>

text \<open>
  \<open>transferSpi out\<close> exchanges one byte with the module: the byte received is the
  next one of the trace \<open>spi_rx\<close>.
\<close>

definition transferSpi :: "byte \<Rightarrow> GSCore \<Rightarrow> (byte \<times> GSCore) option" where
  "transferSpi out s =
     (case spi_rx s of
        [] \<Rightarrow> None
      | b # bs \<Rightarrow> Some (b, s\<lparr>spi_rx := bs, spi_tx := spi_tx s @ [out]\<rparr>))"

definition processSpiSpecial :: "GSConfig \<Rightarrow> byte \<Rightarrow> GSCore \<Rightarrow> byte option \<times> GSCore" where
  "processSpiSpecial cfg c s =
     (if spi_prev_was_esc s then
        (Some (c XOR SPI_ESC_XOR cfg), s\<lparr>spi_prev_was_esc := False\<rparr>)
      else
        let s1 = (if c \<noteq> SPI_SPECIAL_ALL_ONE cfg then s\<lparr>errorcount := 0\<rparr> else s) in
        if c = SPI_SPECIAL_ALL_ONE cfg then
          (let e = errorcount s1 + 1 in
           if e > 20 then (None, s1\<lparr>unrecoverableError := True, errorcount := 0\<rparr>)
           else (None, s1\<lparr>errorcount := e\<rparr>))
        else if c = SPI_SPECIAL_ALL_ZERO cfg then (None, s1)
        else if c = SPI_SPECIAL_ACK cfg then (None, s1)
        else if c = SPI_SPECIAL_IDLE cfg then (None, s1)
        else if c = SPI_SPECIAL_XOFF cfg then (None, s1\<lparr>spi_xoff := True\<rparr>)
        else if c = SPI_SPECIAL_XON cfg then (None, s1\<lparr>spi_xoff := False\<rparr>)
        else if c = SPI_SPECIAL_ESC cfg then (None, s1\<lparr>spi_prev_was_esc := True\<rparr>)
        else (Some c, s1))"

definition isSpiSpecial :: "GSConfig \<Rightarrow> byte \<Rightarrow> bool" where
  "isSpiSpecial cfg c \<longleftrightarrow>
     c \<in> {SPI_SPECIAL_ALL_ONE cfg, SPI_SPECIAL_ALL_ZERO cfg, SPI_SPECIAL_ACK cfg,
           SPI_SPECIAL_IDLE cfg, SPI_SPECIAL_XOFF cfg, SPI_SPECIAL_XON cfg, SPI_SPECIAL_ESC cfg}"

text \<open>
  The \<^verbatim>\<open>do ... while (c == -1 && --tries > 0)\<close> loop of \<open>readRaw\<close>; \<open>k\<close> is
  \<^verbatim>\<open>tries - 1\<close>, the number of further attempts allowed.
\<close>

fun readRaw_loop :: "GSConfig \<Rightarrow> nat \<Rightarrow> GSCore \<Rightarrow> (byte option \<times> GSCore) option" where
  "readRaw_loop cfg 0 s = do {
     (b, s1) \<leftarrow> transferSpi (SPI_SPECIAL_IDLE cfg) s;
     Some (processSpiSpecial cfg b s1)
   }"
| "readRaw_loop cfg (Suc k) s = do {
     (b, s1) \<leftarrow> transferSpi (SPI_SPECIAL_IDLE cfg) s;
     let (c, s2) = processSpiSpecial cfg b s1;
     if c = None then readRaw_loop cfg k s2 else Some (c, s2)
   }"

text \<open>
  \<open>readRaw\<close>: the result is the byte read, or \<open>None\<close> for -1. \<^verbatim>\<open>digitalRead\<close> and
  \<^verbatim>\<open>micros\<close> take their results from the traces.
\<close>

definition readRaw :: "GSConfig \<Rightarrow> GSCore \<Rightarrow> (byte option \<times> GSCore) option" where
  "readRaw cfg s =
     (if unrecoverableError s then Some (None, s)
      else if serial s then
        (case serial_rx s of
           [] \<Rightarrow> Some (None, s)
         | b # bs \<Rightarrow> Some (Some b, s\<lparr>serial_rx := bs\<rparr>))
      else if ss_pin s \<noteq> INVALID_PIN cfg then
        (if data_ready_pin s \<noteq> INVALID_PIN cfg then
           (case pin_trace s of
              [] \<Rightarrow> None
            | ready # ps \<Rightarrow>
                if \<not> ready then Some (None, s\<lparr>pin_trace := ps\<rparr>)
                else readRaw_loop cfg 63 (s\<lparr>pin_trace := ps\<rparr>))
         else
           (case micros_trace s of
              [] \<Rightarrow> None
            | new_time # ts \<Rightarrow>
                let diff = new_time - spi_poll_time s;
                    s1 = s\<lparr>micros_trace := ts\<rparr>
                in if unat diff < MINIMUM_POLL_INTERVAL cfg then
                     readRaw_loop cfg 0
                       (if unat diff < MINIMUM_POLL_INTERVAL cfg div 64
                        then s1\<lparr>spi_poll_time := new_time\<rparr>
                        else s1\<lparr>spi_poll_time :=
                                  spi_poll_time s + of_nat (MINIMUM_POLL_INTERVAL cfg div 64)\<rparr>)
                   else readRaw_loop cfg 63 (s1\<lparr>spi_poll_time := new_time\<rparr>)))
      else Some (None, s))"

section \<open>The ring buffer and the receive state machine\<close>

text \<open>
  \<open>processIncoming\<close> calls \<open>bufferIncomingData\<close> and \<open>bufferFrameHeader\<close>, which
  call \<open>dropData\<close>, which calls \<open>readData(cid_t*)\<close>, \<open>getFrameHeader\<close> and
  \<open>getData\<close>; \<open>getFrameHeader\<close> calls \<open>processIncoming(readRaw())\<close> again when
  the buffer is empty. Each function of the cycle takes the inner \<open>processIncoming\<close>
  as the argument \<open>P\<close>; \<open>processIncoming\<close> closes the cycle by recursion on fuel.

  The indexes \<open>rx_data_head\<close> and \<open>rx_data_tail\<close> are of \<^verbatim>\<open>rx_data_index_t\<close>, taken to
  be \<^verbatim>\<open>uint8_t\<close> (as \<^verbatim>\<open>free\<close> and the argument of \<open>dropData\<close> are): \<open>+=\<close>
  wraps at 256. The constructor asserts that \<^verbatim>\<open>sizeof(rx_data)\<close> is a power of two, so
  the unsigned remainder \<^verbatim>\<open>(a - b - 1) % sizeof(rx_data)\<close> is \<open>mod\<close> on \<open>int\<close>.
\<close>

type_synonym incoming = "byte option \<Rightarrow> GSCore \<Rightarrow> (bool \<times> GSCore) option"

definition loadFrameHeader :: "GSConfig \<Rightarrow> GSCore \<Rightarrow> GSCore option" where
  "loadFrameHeader cfg s =
     (let t = (if rx_data_tail s \<le> length (rx_data s)
                  \<and> length (rx_data s) - rx_data_tail s < frame_size cfg
               then 0 else rx_data_tail s)
      in if t + frame_size cfg \<le> length (rx_data s) then
           Some (s\<lparr>tail_frame := bytes_frame cfg (take (frame_size cfg) (drop t (rx_data s))),
                   rx_data_tail := (t + frame_size cfg) mod 256\<rparr>)
         else None)"

text \<open>The loop of \<open>getFrameHeader\<close> on an empty buffer, with fuel \<open>k\<close>.\<close>

fun getFrameHeader_poll :: "GSConfig \<Rightarrow> incoming \<Rightarrow> nat \<Rightarrow> GSCore \<Rightarrow> (bool \<times> GSCore) option" where
  "getFrameHeader_poll cfg P 0 s = (if length' (tail_frame s) = 0 then None else Some (True, s))"
| "getFrameHeader_poll cfg P (Suc k) s =
     (if length' (tail_frame s) = 0 then do {
        (c, s1) \<leftarrow> readRaw cfg s;
        (ok, s2) \<leftarrow> P c s1;
        if \<not> ok then Some (False, s2) else getFrameHeader_poll cfg P k s2
      }
      else Some (True, s))"

definition getFrameHeader ::
  "GSConfig \<Rightarrow> incoming \<Rightarrow> nat \<Rightarrow> cid_t \<Rightarrow> GSCore \<Rightarrow> (RXFrame \<times> GSCore) option" where
  "getFrameHeader cfg P k c s = do {
     (ok, s1) \<leftarrow>
       (if length' (tail_frame s) = 0 then
          (if rx_data_tail s \<noteq> rx_data_head s
           then do { s' \<leftarrow> loadFrameHeader cfg s; Some (True, s') }
           else getFrameHeader_poll cfg P k s)
        else Some (True, s));
     if \<not> ok then Some (null_frame cfg, s1)
     else if c = ANY_CID cfg \<or> cid (tail_frame s1) = c then Some (tail_frame s1, s1)
     else Some (null_frame cfg, s1)
   }"

definition getData :: "GSConfig \<Rightarrow> GSCore \<Rightarrow> (byte option \<times> GSCore) option" where
  "getData cfg s =
     (if rx_data_tail s \<noteq> rx_data_head s then
        (if rx_data_tail s < length (rx_data s) then
           Some (Some (rx_data s ! rx_data_tail s),
                 s\<lparr>rx_data_tail := (rx_data_tail s + 1) mod length (rx_data s),
                   tail_frame := (tail_frame s)\<lparr>length' := length' (tail_frame s) - 1\<rparr>\<rparr>)
         else None)
      else do {
        (c, s1) \<leftarrow> readRaw cfg s;
        if c \<noteq> None then
          let s2 = s1\<lparr>tail_frame := (tail_frame s1)\<lparr>length' := length' (tail_frame s1) - 1\<rparr>\<rparr>;
              s3 = s2\<lparr>head_frame := (head_frame s2)\<lparr>length' := length' (head_frame s2) - 1\<rparr>\<rparr>
          in Some (c, if length' (head_frame s3) = 0 then s3\<lparr>rx_state := GS_RX_IDLE\<rparr> else s3)
        else Some (c, s1)
      })"

text \<open>\<open>int readData(cid_t *cid)\<close>: the byte or -1, the cid stored (if any), the object.\<close>

definition readData_any ::
  "GSConfig \<Rightarrow> incoming \<Rightarrow> nat \<Rightarrow> GSCore \<Rightarrow> (byte option \<times> cid_t option \<times> GSCore) option" where
  "readData_any cfg P k s = do {
     (f, s1) \<leftarrow> getFrameHeader cfg P k (ANY_CID cfg) s;
     if \<not> frame_valid cfg f then Some (None, None, s1)
     else do {
       (c, s2) \<leftarrow> getData cfg s1;
       Some (c, if c \<noteq> None then Some (cid (tail_frame s2)) else None, s2)
     }
   }"

fun dropData :: "GSConfig \<Rightarrow> incoming \<Rightarrow> nat \<Rightarrow> nat \<Rightarrow> GSCore \<Rightarrow> GSCore option" where
  "dropData cfg P k 0 s = Some s"
| "dropData cfg P k (Suc n) s = do {
     (c, cd, s1) \<leftarrow> readData_any cfg P k s;
     s2 \<leftarrow> (case (c, cd) of
              (Some _, Some d) \<Rightarrow>
                do { _ \<leftarrow> conn_at s1 d; Some (conn_upd d (\<lambda>k. k\<lparr>error := True\<rparr>) s1) }
            | _ \<Rightarrow> Some s1);
     dropData cfg P k n s2
   }"

definition bufferIncomingData :: "GSConfig \<Rightarrow> incoming \<Rightarrow> nat \<Rightarrow> byte \<Rightarrow> GSCore \<Rightarrow> GSCore option" where
  "bufferIncomingData cfg P k c s = do {
     let next_head = (rx_data_head s + 1) mod length (rx_data s);
     s1 \<leftarrow> (if next_head = rx_data_tail s then dropData cfg P k 1 s else Some s);
     if rx_data_head s1 < length (rx_data s1) then
       Some (s1\<lparr>rx_data := (rx_data s1)[rx_data_head s1 := c], rx_data_head := next_head\<rparr>)
     else None
   }"

definition bufferFrameHeader :: "GSConfig \<Rightarrow> incoming \<Rightarrow> nat \<Rightarrow> GSCore \<Rightarrow> GSCore option" where
  "bufferFrameHeader cfg P k s =
     (if rx_data_head s = rx_data_tail s then Some (s\<lparr>tail_frame := head_frame s\<rparr>)
      else do {
        s3 \<leftarrow> (if frame_size cfg \<le> length (rx_data s)
                  \<and> rx_data_head s > length (rx_data s) - frame_size cfg then do {
                 s1 \<leftarrow> (if rx_data_tail s > rx_data_head s
                        then dropData cfg P k (rx_data_tail s - rx_data_tail s) s else Some s);
                 s2 \<leftarrow> (if rx_data_tail s1 = 0 then dropData cfg P k 1 s1 else Some s1);
                 Some (s2\<lparr>rx_data_head := 0\<rparr>)
               } else Some s);
        let free = nat ((int (rx_data_tail s3) - int (rx_data_head s3) - 1)
                          mod int (length (rx_data s3))) mod 256;
        s4 \<leftarrow> (if free < frame_size cfg
               then dropData cfg P k ((frame_size cfg - free) mod 256) s3 else Some s3);
        if rx_data_head s4 + frame_size cfg \<le> length (rx_data s4) then
          Some (s4\<lparr>rx_data := take (rx_data_head s4) (rx_data s4)
                               @ take (frame_size cfg) (frame_bytes cfg (head_frame s4))
                               @ drop (rx_data_head s4 + frame_size cfg) (rx_data s4),
                   rx_data_head := (rx_data_head s4 + frame_size cfg) mod 256\<rparr>)
        else None
      })"

text \<open>
  The bytes of a header and of an asynchronous message are collected in \<open>rx_async\<close>.
  A field handed to \<open>parseNumber\<close> is read as a whole here: the model does not follow
  a run in which a part of the field lies outside the array.
\<close>

definition async_append :: "byte \<Rightarrow> GSCore \<Rightarrow> GSCore" where
  "async_append c s =
     (if unat (rx_async_len s) < length (rx_async s)
      then s\<lparr>rx_async := (rx_async s)[unat (rx_async_len s) := c],
              rx_async_len := rx_async_len s + 1\<rparr>
      else s)"

text \<open>\<^verbatim>\<open>while (p[n] != d) ++n;\<close> from \<^verbatim>\<open>rx_async + off\<close>: the count \<open>n\<close>.\<close>

definition scan_to :: "byte \<Rightarrow> nat \<Rightarrow> GSCore \<Rightarrow> nat option" where
  "scan_to d off s =
     (let xs = drop off (rx_async s)
      in if d \<in> set xs then Some (length (takeWhile (\<lambda>b. b \<noteq> d) xs)) else None)"

definition esc_Z_header :: "GSConfig \<Rightarrow> incoming \<Rightarrow> nat \<Rightarrow> GSCore \<Rightarrow> GSCore option" where
  "esc_Z_header cfg P k s = do {
     b \<leftarrow> async_slice s 0 1;
     case parseNumber8 b 16 of
       None \<Rightarrow> Some (s\<lparr>rx_state := GS_RX_IDLE\<rparr>)
     | Some c \<Rightarrow> do {
         let s1 = s\<lparr>head_frame := (head_frame s)\<lparr>cid := c\<rparr>\<rparr>;
         l \<leftarrow> async_slice s1 1 4;
         case parseNumber16 l 10 of
           None \<Rightarrow> Some (s1\<lparr>rx_state := GS_RX_IDLE\<rparr>)
         | Some n \<Rightarrow> do {
             let s2 = s1\<lparr>head_frame := (head_frame s1)\<lparr>length' := n, udp_server := False\<rparr>\<rparr>;
             s3 \<leftarrow> bufferFrameHeader cfg P k s2;
             Some (s3\<lparr>rx_state := GS_RX_BULK\<rparr>)
           }
       }
   }"

definition esc_y_header :: "GSConfig \<Rightarrow> incoming \<Rightarrow> nat \<Rightarrow> GSCore \<Rightarrow> GSCore option" where
  "esc_y_header cfg P k s = do {
     iplen \<leftarrow> scan_to 0x20 1 s;
     let portstart = 1 + iplen + 1;
     portlen \<leftarrow> scan_to 0x09 portstart s;
     let lengthstart = portstart + portlen + 1;
     b \<leftarrow> async_slice s 0 1;
     case parseNumber8 b 16 of
       None \<Rightarrow> Some (s\<lparr>rx_state := GS_RX_IDLE\<rparr>)
     | Some c \<Rightarrow> do {
         let (ok, a) = parseIpAddress (drop 1 (rx_async s)) iplen;
         let s1 = s\<lparr>head_frame := (head_frame s)\<lparr>cid := c, ip := a\<rparr>\<rparr>;
         if \<not> ok then Some (s1\<lparr>rx_state := GS_RX_IDLE\<rparr>)
         else do {
           p \<leftarrow> async_slice s1 portstart portlen;
           case parseNumber16 p 10 of
             None \<Rightarrow> Some (s1\<lparr>rx_state := GS_RX_IDLE\<rparr>)
           | Some pt \<Rightarrow> do {
               let s2 = s1\<lparr>head_frame := (head_frame s1)\<lparr>port := pt\<rparr>\<rparr>;
               l \<leftarrow> async_slice s2 lengthstart 4;
               case parseNumber16 l 10 of
                 None \<Rightarrow> Some (s2\<lparr>rx_state := GS_RX_IDLE\<rparr>)
               | Some n \<Rightarrow> do {
                   let s3 = s2\<lparr>head_frame := (head_frame s2)\<lparr>length' := n, udp_server := True\<rparr>\<rparr>;
                   s4 \<leftarrow> bufferFrameHeader cfg P k s3;
                   Some (s4\<lparr>rx_state := GS_RX_BULK\<rparr>)
                 }
             }
         }
       }
   }"

definition esc_A_header :: "GSCore \<Rightarrow> GSCore option" where
  "esc_A_header s = do {
     b \<leftarrow> async_slice s 0 1;
     case parseNumber8 b 16 of
       None \<Rightarrow> Some (s\<lparr>rx_state := GS_RX_IDLE\<rparr>)
     | Some st \<Rightarrow> do {
         let s1 = s\<lparr>rx_async_subtype := st\<rparr>;
         l \<leftarrow> async_slice s1 1 2;
         case parseNumber8 l 10 of
           None \<Rightarrow> Some (s1\<lparr>rx_state := GS_RX_IDLE\<rparr>)
         | Some n \<Rightarrow> Some (s1\<lparr>rx_async_left := n, rx_state := GS_RX_ASYNC, rx_async_len := 0\<rparr>)
       }
   }"

text \<open>
  The states that collect bytes in \<open>rx_async\<close>: the byte is appended, then the inner
  \<^verbatim>\<open>switch\<close> runs.
\<close>

definition header_byte :: "GSConfig \<Rightarrow> incoming \<Rightarrow> nat \<Rightarrow> byte \<Rightarrow> GSCore \<Rightarrow> GSCore option" where
  "header_byte cfg P k c s =
     (let s1 = async_append c s;
          s2 = s1\<lparr>rx_async_left := rx_async_left s1 - 1\<rparr>
      in case rx_state s1 of
           GS_RX_ESC_Z \<Rightarrow> if rx_async_left s2 = 0 then esc_Z_header cfg P k s2 else Some s2
         | GS_RX_ESC_y_1 \<Rightarrow> Some (if c = 0x20 then s1\<lparr>rx_state := GS_RX_ESC_y_2\<rparr> else s1)
         | GS_RX_ESC_y_2 \<Rightarrow>
             Some (if c = 0x09 then s1\<lparr>rx_state := GS_RX_ESC_y_3, rx_async_left := 4\<rparr> else s1)
         | GS_RX_ESC_y_3 \<Rightarrow> if rx_async_left s2 = 0 then esc_y_header cfg P k s2 else Some s2
         | GS_RX_ESC_A \<Rightarrow> if rx_async_left s2 = 0 then esc_A_header s2 else Some s2
         | GS_RX_ASYNC \<Rightarrow>
             if rx_async_left s2 = 0
             then map_option snd (processAsync cfg (s2\<lparr>rx_state := GS_RX_IDLE\<rparr>))
             else Some s2
         | _ \<Rightarrow> Some s1)"

definition processIncoming_body ::
  "GSConfig \<Rightarrow> incoming \<Rightarrow> nat \<Rightarrow> byte option \<Rightarrow> GSCore \<Rightarrow> (bool \<times> GSCore) option" where
  "processIncoming_body cfg P k ci s =
     (case ci of
        None \<Rightarrow> Some (False, s)
      | Some c \<Rightarrow>
          map_option (Pair True)
            (case rx_state s of
               GS_RX_IDLE \<Rightarrow> Some (if c = 0x1B then s\<lparr>rx_state := GS_RX_ESC\<rparr> else s)
             | GS_RX_ESC \<Rightarrow>
                 Some (if c = 0x5A then
                         s\<lparr>rx_state := GS_RX_ESC_Z, rx_async_left := 5, rx_async_len := 0\<rparr>
                       else if c = 0x41 then
                         s\<lparr>rx_state := GS_RX_ESC_A, rx_async_left := 3, rx_async_len := 0\<rparr>
                       else if c = 0x79 then
                         s\<lparr>rx_state := GS_RX_ESC_y_1, rx_async_len := 0\<rparr>
                       else s\<lparr>rx_state := GS_RX_IDLE\<rparr>)
             | GS_RX_BULK \<Rightarrow> do {
                 s1 \<leftarrow> bufferIncomingData cfg P k c s;
                 let s2 = s1\<lparr>head_frame := (head_frame s1)\<lparr>length' := length' (head_frame s1) - 1\<rparr>\<rparr>;
                 Some (if length' (head_frame s2) = 0 then s2\<lparr>rx_state := GS_RX_IDLE\<rparr> else s2)
               }
             | _ \<Rightarrow> header_byte cfg P k c s))"

text \<open>
  \<open>processIncoming\<close> with fuel: the fuel bounds the depth of the calls of
  \<open>processIncoming\<close> inside \<open>getFrameHeader\<close>, and the turns of its loop.
\<close>

fun processIncoming :: "nat \<Rightarrow> GSConfig \<Rightarrow> byte option \<Rightarrow> GSCore \<Rightarrow> (bool \<times> GSCore) option" where
  "processIncoming 0 cfg c s = None"
| "processIncoming (Suc n) cfg c s = processIncoming_body cfg (processIncoming n cfg) n c s"

text \<open>\<open>int readData(cid_t cid)\<close>: the next byte of the connection, or -1.\<close>

definition readData :: "GSConfig \<Rightarrow> nat \<Rightarrow> cid_t \<Rightarrow> GSCore \<Rightarrow> (byte option \<times> GSCore) option" where
  "readData cfg fuel c s = do {
     (f, s1) \<leftarrow> getFrameHeader cfg (processIncoming fuel cfg) fuel c s;
     if \<not> frame_valid cfg f then Some (None, s1) else getData cfg s1
   }"

section \<open>Writing\<close>

text \<open>One exchange of \<open>writeRaw\<close>: \<open>processIncoming(processSpiSpecial(transferSpi(out)))\<close>.\<close>

definition spi_exchange :: "GSConfig \<Rightarrow> nat \<Rightarrow> byte \<Rightarrow> GSCore \<Rightarrow> GSCore option" where
  "spi_exchange cfg fuel out s = do {
     (b, s1) \<leftarrow> transferSpi out s;
     let (c, s2) = processSpiSpecial cfg b s1;
     (_, s3) \<leftarrow> processIncoming fuel cfg c s2;
     Some s3
   }"

text \<open>The loop of \<open>writeRaw\<close> on SPI, with \<open>tries\<close> and the bytes left.\<close>

fun writeRaw_spi :: "GSConfig \<Rightarrow> nat \<Rightarrow> nat \<Rightarrow> byte list \<Rightarrow> GSCore \<Rightarrow> GSCore option" where
  "writeRaw_spi cfg fuel tries [] s = Some s"
| "writeRaw_spi cfg fuel 0 (b # bs) s = Some s"
| "writeRaw_spi cfg fuel (Suc t) (b # bs) s =
     (if unrecoverableError s then Some s
      else if spi_xoff s then do {
        s1 \<leftarrow> spi_exchange cfg fuel (SPI_SPECIAL_IDLE cfg) s;
        writeRaw_spi cfg fuel t (b # bs) s1
      }
      else do {
        s1 \<leftarrow> (if isSpiSpecial cfg b then do {
                 s' \<leftarrow> spi_exchange cfg fuel (SPI_SPECIAL_ESC cfg) s;
                 spi_exchange cfg fuel (b XOR SPI_ESC_XOR cfg) s'
               } else spi_exchange cfg fuel b s);
        writeRaw_spi cfg fuel (Suc t) bs s1
      })"

definition writeRaw :: "GSConfig \<Rightarrow> nat \<Rightarrow> byte list \<Rightarrow> GSCore \<Rightarrow> GSCore option" where
  "writeRaw cfg fuel buf s =
     (if serial s then
        (if unrecoverableError s then Some s else Some (s\<lparr>serial_tx := serial_tx s @ buf\<rparr>))
      else if ss_pin s \<noteq> 0 then writeRaw_spi cfg fuel 1024 buf s
      else Some s)"

text \<open>
  \<open>writeCommand\<close>: \<open>cmd\<close> is the text the format and its arguments produce.
  \<^verbatim>\<open>vsnprintf(buf, sizeof(buf) - 2, ...)\<close> stores at most 125 characters of it and a NUL,
  and returns the length of the whole text. The result is the text printed on the error
  stream (if any) and the object after \<open>writeRaw\<close>.
\<close>

definition writeCommand ::
  "GSConfig \<Rightarrow> nat \<Rightarrow> byte list \<Rightarrow> GSCore \<Rightarrow> (byte list option \<times> GSCore) option" where
  "writeCommand cfg fuel cmd s =
     (let buf = take 125 cmd @ [0];
          len = (if length cmd > 126 then 126 else length cmd);
          logged = (if length cmd > 126 \<and> GS_LOG_ERRORS cfg \<and> error_stream cfg
                    then Some (bytes ''Command truncated: '' @ take len buf @ [0x0D, 0x0A])
                    else None)
      in map_option (Pair logged) (writeRaw cfg fuel (take len buf @ [0x0D, 0x0A]) s))"

text \<open>\<open>end()\<close>, the only function that clears \<open>unrecoverableError\<close>.\<close>

definition end_session :: "GSConfig \<Rightarrow> GSCore \<Rightarrow> GSCore" where
  "end_session cfg s =
     s\<lparr>serial := False, ss_pin := INVALID_PIN cfg, data_ready_pin := INVALID_PIN cfg,
       connections := map (\<lambda>_. \<lparr>connected = False, error = False, ssl = False,
                                remote_ip = 0, remote_port = 0, local_port = 0\<rparr>) (connections s),
       associated := False, unrecoverableError := False\<rparr>"

section \<open>Reading a synchronous response\<close>

text \<open>
  The local variables of \<open>readResponseInternal\<close>: \<open>resp_buf\<close> is the caller's array,
  \<open>resp_len\<close> the value of \<^verbatim>\<open>*len\<close>, \<open>resp_read\<close> the variable \<^verbatim>\<open>read\<close>,
  \<open>connect_cid_cell\<close> the cell \<^verbatim>\<open>connect_cid\<close> points to (\<open>None\<close> for NULL), and
  \<open>callback_lines\<close> the lines handed to the callback so far.
\<close>

record ResponseLocals =
  resp_buf :: "byte list"
  resp_len :: nat
  resp_read :: nat
  line_start :: nat
  dropped_data :: bool
  skip_line :: bool
  connect_cid_cell :: "cid_t option"
  callback_lines :: "byte list list"

text \<open>\<^verbatim>\<open>buf[read++] = c\<close>.\<close>

definition resp_push :: "byte \<Rightarrow> ResponseLocals \<Rightarrow> ResponseLocals option" where
  "resp_push c l =
     (if resp_read l < length (resp_buf l)
      then Some (l\<lparr>resp_buf := (resp_buf l)[resp_read l := c], resp_read := resp_read l + 1\<rparr>)
      else None)"

text \<open>
  \<^verbatim>\<open>memmove(&buf[line_start - 1], &buf[line_start], read - line_start); line_start--;\<close>:
  the line is moved down by one, over the last byte of the data kept before it. The
  cell \<^verbatim>\<open>buf[read - 1]\<close> keeps what it held. The model follows the call when the
  bytes moved lie in the array.
\<close>

definition evict_last :: "ResponseLocals \<Rightarrow> ResponseLocals option" where
  "evict_last l =
     (if line_start l \<le> resp_read l \<and> resp_read l \<le> length (resp_buf l)
      then Some (l\<lparr>resp_buf :=
                     take (line_start l - 1) (resp_buf l)
                     @ take (resp_read l - line_start l) (drop (line_start l) (resp_buf l))
                     @ drop (resp_read l - 1) (resp_buf l),
                   line_start := line_start l - 1\<rparr>)
      else None)"

text \<open>\<^verbatim>\<open>buf[read] = c\<close>: \<^verbatim>\<open>read\<close> stays as it is.\<close>

definition resp_store :: "byte \<Rightarrow> ResponseLocals \<Rightarrow> ResponseLocals option" where
  "resp_store c l =
     (if resp_read l < length (resp_buf l)
      then Some (l\<lparr>resp_buf := (resp_buf l)[resp_read l := c]\<rparr>)
      else None)"

text \<open>
  The branch of the loop for a byte of a line (not a line end, not an escape, state
  idle). When the buffer is full and the line is short, the line is moved down by one and
  the new byte is stored at \<^verbatim>\<open>buf[read]\<close>, where \<^verbatim>\<open>read\<close> equals \<^verbatim>\<open>*len\<close>.
\<close>

definition response_data_byte :: "GSConfig \<Rightarrow> byte \<Rightarrow> ResponseLocals \<Rightarrow> ResponseLocals option" where
  "response_data_byte cfg c l =
     (if resp_read l < resp_len l then resp_push c l
      else if resp_read l - line_start l \<ge> MAX_RESPONSE_SIZE cfg then
        Some (l\<lparr>skip_line := True, dropped_data := True\<rparr>)
      else if line_start l > 0 then do {
        l1 \<leftarrow> evict_last l;
        l2 \<leftarrow> resp_store c l1;
        Some (l2\<lparr>dropped_data := True\<rparr>)
      }
      else Some (l\<lparr>dropped_data := True\<rparr>))"

text \<open>
  The branch for a line end. The result is the response to return, or \<open>None\<close> when the
  loop goes on. \<open>processResponseLine\<close> takes the length of the line as a
  \<^verbatim>\<open>uint8_t\<close>.
\<close>

definition response_line_end ::
  "GSConfig \<Rightarrow> bool \<Rightarrow> bool \<Rightarrow> ResponseLocals \<Rightarrow> GSCore
     \<Rightarrow> (GSResponse option \<times> ResponseLocals \<times> GSCore) option" where
  "response_line_end cfg keep_data callback l s =
     (if resp_read l - line_start l = 0 then Some (None, l, s)
      else if skip_line l then Some (None, l\<lparr>skip_line := False, resp_read := line_start l\<rparr>, s)
      else do {
        let line = take ((resp_read l - line_start l) mod 256) (drop (line_start l) (resp_buf l));
        (res, cc) \<leftarrow> processResponseLine cfg line (connect_cid_cell l);
        s1 \<leftarrow> (if res = GS_LINK_LOST then processDisassociation cfg s else Some s);
        let l1 = l\<lparr>skip_line := False, connect_cid_cell := cc\<rparr>;
        if keep_data \<and> \<not> callback \<and> \<not> dropped_data l1 \<and> res = GS_UNKNOWN_RESPONSE then do {
          l2 \<leftarrow> (if resp_read l1 < resp_len l1 then resp_push 0x0D l1 else Some l1);
          l3 \<leftarrow> (if resp_read l2 < resp_len l2 then resp_push 0x0A l2 else Some l2);
          Some (None, l3\<lparr>line_start := resp_read l3\<rparr>, s1)
        }
        else
          let l2 = (if keep_data \<and> callback \<and> res = GS_UNKNOWN_RESPONSE
                    then l1\<lparr>callback_lines := callback_lines l1
                              @ [take (resp_read l1 - line_start l1) (drop (line_start l1) (resp_buf l1))]\<rparr>
                    else l1);
              l3 = l2\<lparr>resp_read := line_start l2\<rparr>
          in if res \<noteq> GS_UNKNOWN_RESPONSE \<and> res \<noteq> GS_CON_SUCCESS
             then Some (Some res, l3\<lparr>resp_len := resp_read l3\<rparr>, s1)
             else Some (None, l3, s1)
      })"

text \<open>The loop, with fuel; \<open>start\<close> is the first reading of \<^verbatim>\<open>millis()\<close>.\<close>

fun readResponse_loop ::
  "nat \<Rightarrow> GSConfig \<Rightarrow> 32 word \<Rightarrow> bool \<Rightarrow> bool \<Rightarrow> ResponseLocals \<Rightarrow> GSCore
     \<Rightarrow> (GSResponse \<times> ResponseLocals \<times> GSCore) option" where
  "readResponse_loop 0 cfg start keep_data callback l s = None"
| "readResponse_loop (Suc n) cfg start keep_data callback l s =
     (if unrecoverableError s then Some (GS_UNRECOVERABLE_ERROR, l, s)
      else do {
        (c, s1) \<leftarrow> readRaw cfg s;
        case c of
          None \<Rightarrow>
            (case millis_trace s1 of
               [] \<Rightarrow> None
             | t # ts \<Rightarrow>
                 if unat (t - start) > RESPONSE_TIMEOUT cfg
                 then Some (GS_UNRECOVERABLE_ERROR, l,
                            s1\<lparr>millis_trace := ts, unrecoverableError := True\<rparr>)
                 else readResponse_loop n cfg start keep_data callback l (s1\<lparr>millis_trace := ts\<rparr>))
        | Some b \<Rightarrow>
            if rx_state s1 \<noteq> GS_RX_IDLE \<or> b = 0x1B then do {
              (_, s2) \<leftarrow> processIncoming n cfg (Some b) s1;
              readResponse_loop n cfg start keep_data callback l s2
            }
            else if b = 0x0D \<or> b = 0x0A then do {
              (r, l1, s2) \<leftarrow> response_line_end cfg keep_data callback l s1;
              case r of
                Some res \<Rightarrow> Some (res, l1, s2)
              | None \<Rightarrow> readResponse_loop n cfg start keep_data callback l1 s2
            }
            else do {
              l1 \<leftarrow> response_data_byte cfg b l;
              readResponse_loop n cfg start keep_data callback l1 s1
            }
      })"

definition readResponseInternal ::
  "nat \<Rightarrow> GSConfig \<Rightarrow> byte list \<Rightarrow> nat \<Rightarrow> cid_t option \<Rightarrow> bool \<Rightarrow> bool \<Rightarrow> GSCore
     \<Rightarrow> (GSResponse \<times> ResponseLocals \<times> GSCore) option" where
  "readResponseInternal fuel cfg buf len connect_cid keep_data callback s =
     (case millis_trace s of
        [] \<Rightarrow> None
      | t # ts \<Rightarrow>
          readResponse_loop fuel cfg t keep_data callback
            \<lparr>resp_buf = buf, resp_len = len, resp_read = 0, line_start = 0,
             dropped_data = False, skip_line = False, connect_cid_cell = connect_cid,
             callback_lines = []\<rparr>
            (s\<lparr>millis_trace := ts\<rparr>))"

section \<open>Predicates used in the statements\<close>

text \<open>What the loop of \<open>processDisassociation\<close> has done after visiting the cids \<open>cs\<close>.\<close>

definition loop_post :: "nat list \<Rightarrow> GSCore \<Rightarrow> GSCore \<Rightarrow> bool" where
  "loop_post cs s s' \<longleftrightarrow>
     length (connections s') = length (connections s)
     \<and> associated s' = associated s
     \<and> (EVENT_ASSOCIATED \<in> events s' \<longleftrightarrow> EVENT_ASSOCIATED \<in> events s)
     \<and> (EVENT_DISASSOCIATED \<in> events s' \<longleftrightarrow> EVENT_DISASSOCIATED \<in> events s)
     \<and> (\<forall>i < length (connections s).
           (i \<in> set cs \<longrightarrow> \<not> connected (connections s' ! i)
                \<and> (connected (connections s ! i) \<longrightarrow> error (connections s' ! i)))
         \<and> (i \<notin> set cs \<longrightarrow> connections s' ! i = connections s ! i))"

text \<open>
  For \<open>parseIpAddress\<close>: the characters the loop can reach, the value of a run of
  decimal digits, the text of one octet (digits only, at least one, value below 256), and
  four octet texts joined by dots.
\<close>

definition scanned :: "byte list \<Rightarrow> nat \<Rightarrow> byte list" where
  "scanned str len = takeWhile (\<lambda>c. c \<noteq> 0) (if len = 0 then str else take len str)"

fun dec_val :: "nat \<Rightarrow> byte list \<Rightarrow> nat" where
  "dec_val v [] = v"
| "dec_val v (c # cs) = dec_val (v * 10 + unat (c - 0x30)) cs"

definition octet_text :: "byte list \<Rightarrow> bool" where
  "octet_text ds \<longleftrightarrow> ds \<noteq> [] \<and> list_all is_digit ds \<and> dec_val 0 ds < 256"

definition dotted_quad :: "byte list \<Rightarrow> byte list \<Rightarrow> byte list \<Rightarrow> byte list \<Rightarrow> byte list" where
  "dotted_quad a b c d = a @ [0x2E] @ b @ [0x2E] @ c @ [0x2E] @ d"

text \<open>
  For the SPI framer: the object after \<open>processSpiSpecial\<close> has taken the wire bytes
  \<open>bs\<close> in turn, and the invariant of the counter of all-ones bytes (it holds when the
  object is created, and \<open>processSpiSpecial\<close>, the only function that touches the
  counter, keeps it).
\<close>

definition spi_feed :: "GSConfig \<Rightarrow> byte list \<Rightarrow> GSCore \<Rightarrow> GSCore" where
  "spi_feed cfg bs s = foldl (\<lambda>t b. snd (processSpiSpecial cfg b t)) s bs"

definition spi_inv :: "GSCore \<Rightarrow> bool" where
  "spi_inv s \<longleftrightarrow> errorcount s \<le> 20 \<and> (spi_prev_was_esc s \<longrightarrow> errorcount s = 0)"

text \<open>The number of cells of the ring buffer between \<open>rx_data_tail\<close> and \<open>rx_data_head\<close>.\<close>

definition occupancy :: "GSCore \<Rightarrow> nat" where
  "occupancy s = nat ((int (rx_data_head s) - int (rx_data_tail s)) mod int (length (rx_data s)))"

text \<open>
  Runs of the engine, for the examples: the module sends the bytes \<open>bs\<close>, each given to
  \<open>processIncoming\<close>; the application calls \<open>readData(cid)\<close> up to \<open>n\<close> times and
  collects the bytes, until it returns -1.
\<close>

fun receive :: "GSConfig \<Rightarrow> byte list \<Rightarrow> GSCore \<Rightarrow> GSCore option" where
  "receive cfg [] s = Some s"
| "receive cfg (b # bs) s = do { (_, s1) \<leftarrow> processIncoming 1 cfg (Some b) s; receive cfg bs s1 }"

fun consume :: "GSConfig \<Rightarrow> cid_t \<Rightarrow> nat \<Rightarrow> GSCore \<Rightarrow> (byte list \<times> GSCore) option" where
  "consume cfg c 0 s = Some ([], s)"
| "consume cfg c (Suc n) s = do {
     (b, s1) \<leftarrow> readData cfg 1 c s;
     case b of
       None \<Rightarrow> Some ([], s1)
     | Some x \<Rightarrow> do { (xs, s2) \<leftarrow> consume cfg c n s1; Some (x # xs, s2) }
   }"

text \<open>
  For \<open>readResponseInternal\<close>: the invariant of its loop, for a caller whose array has
  at least \<^verbatim>\<open>*len\<close> cells. The buffer is full when \<open>resp_read\<close> has reached
  \<open>resp_len\<close>.
\<close>

definition resp_inv :: "ResponseLocals \<Rightarrow> bool" where
  "resp_inv l \<longleftrightarrow>
     line_start l \<le> resp_read l \<and> resp_read l \<le> resp_len l \<and> resp_len l \<le> length (resp_buf l)"

section \<open>An example configuration and example objects\<close>

text \<open>
  One configuration, for evaluating the model on concrete inputs: the values of the
  Gainspan serial-to-wifi protocol, with small buffers and an example layout of
  \<open>RXFrame\<close> in ten bytes.
\<close>

definition example_frame_bytes :: "RXFrame \<Rightarrow> byte list" where
  "example_frame_bytes f =
     [cid f, ucast (length' f), ucast (drop_bit 8 (length' f)), (if udp_server f then 1 else 0)]
     @ take 4 (ip f @ replicate 4 0) @ [ucast (port f), ucast (drop_bit 8 (port f))]"

definition example_bytes_frame :: "byte list \<Rightarrow> RXFrame" where
  "example_bytes_frame bs =
     \<lparr>cid = bs ! 0,
      length' = ucast (bs ! 1) OR push_bit 8 (ucast (bs ! 2)),
      udp_server = (bs ! 3 \<noteq> 0),
      ip = take 4 (drop 4 bs),
      port = ucast (bs ! 8) OR push_bit 8 (ucast (bs ! 9))\<rparr>"

definition example_response_value :: "GSResponse \<Rightarrow> int" where
  "example_response_value r =
     (case r of
        GS_UNKNOWN_RESPONSE \<Rightarrow> -1 | GS_RESPONSE_TIMEOUT \<Rightarrow> -2 | GS_UNRECOVERABLE_ERROR \<Rightarrow> -3
      | GS_SUCCESS \<Rightarrow> 0 | GS_FAILURE \<Rightarrow> 1 | GS_EINVAL \<Rightarrow> 2 | GS_SOCK_FAIL \<Rightarrow> 3
      | GS_ENOCID \<Rightarrow> 4 | GS_EBADCID \<Rightarrow> 5 | GS_ENOTSUP \<Rightarrow> 6 | GS_CON_SUCCESS \<Rightarrow> 7
      | GS_ECIDCLOSE \<Rightarrow> 8 | GS_LINK_LOST \<Rightarrow> 9 | GS_DISASSO_EVT \<Rightarrow> 10
      | GS_STBY_TMR_EVT \<Rightarrow> 11 | GS_STBY_ALM_EVT \<Rightarrow> 12 | GS_DPSLEEP_EVT \<Rightarrow> 13
      | GS_BOOT_UNEXPEC \<Rightarrow> 14 | GS_ENOIP \<Rightarrow> 15 | GS_BOOT_INTERNAL \<Rightarrow> 16
      | GS_BOOT_EXTERNAL \<Rightarrow> 17 | GS_NWCONN_SUCCESS \<Rightarrow> 18)"

definition no_frame :: RXFrame where
  "no_frame = \<lparr>cid = 0, length' = 0, udp_server = False, ip = [0, 0, 0, 0], port = 0\<rparr>"

definition example_config :: GSConfig where
  "example_config =
     \<lparr>frame_size = 10,
      frame_bytes = example_frame_bytes, bytes_frame = example_bytes_frame,
      frame_valid = (\<lambda>f. length' f \<noteq> 0), null_frame = no_frame,
      MAX_CID = 15, INVALID_CID = 0xFF, ANY_CID = 0xFE, INVALID_PIN = 0xFF,
      MAX_RESPONSE_SIZE = 8, RESPONSE_TIMEOUT = 5000, GS_LOG_ERRORS = True,
      MINIMUM_POLL_INTERVAL = 1024,
      SPI_SPECIAL_ALL_ONE = 0xFF, SPI_SPECIAL_ALL_ZERO = 0x00, SPI_SPECIAL_ACK = 0xF3,
      SPI_SPECIAL_IDLE = 0xF5, SPI_SPECIAL_XOFF = 0xFA, SPI_SPECIAL_XON = 0xFD,
      SPI_SPECIAL_ESC = 0xFB, SPI_ESC_XOR = 0x20,
      response_value = example_response_value, error_stream = True\<rparr>"

definition no_connection :: Connection where
  "no_connection = \<lparr>connected = False, error = False, ssl = False,
                     remote_ip = 0, remote_port = 0, local_port = 0\<rparr>"

definition example_core :: GSCore where
  "example_core =
     \<lparr>serial = True, ss_pin = 0xFF, data_ready_pin = 0xFF,
      unrecoverableError = False, initializing = False,
      rx_state = GS_RX_IDLE, rx_data = replicate 32 0, rx_data_head = 0, rx_data_tail = 0,
      head_frame = no_frame, tail_frame = no_frame,
      rx_async = replicate 32 0, rx_async_len = 0, rx_async_left = 0, rx_async_subtype = 0,
      spi_prev_was_esc = False, spi_xoff = False, errorcount = 0, spi_poll_time = 0,
      ncm_auto_cid = 0xFF, events = {}, associated = False,
      connections = replicate 16 no_connection,
      serial_rx = [], serial_tx = [], spi_rx = [], spi_tx = [], pin_trace = [],
      micros_trace = [], millis_trace = []\<rparr>"

definition two_connections :: GSCore where
  "two_connections =
     example_core\<lparr>associated := True,
       connections := (replicate 16 no_connection)
         [1 := no_connection\<lparr>connected := True\<rparr>, 3 := no_connection\<lparr>connected := True\<rparr>]\<rparr>"

text \<open>An object that has received the asynchronous message \<open>payload\<close> under a header of the given subtype.\<close>

definition async_message :: "byte \<Rightarrow> string \<Rightarrow> GSCore" where
  "async_message subtype payload =
     example_core\<lparr>rx_async := bytes payload @ replicate (32 - length payload) 0,
                  rx_async_len := of_nat (length payload),
                  rx_async_subtype := subtype\<rparr>"

text \<open>
  Ring buffers of 32 bytes: a full one whose \<open>tail_frame\<close> has bytes left; a full one
  whose \<open>tail_frame\<close> is used up, with the header of the next frame at the tail; and
  one whose 25 bytes of payload wrap around the end of the array (cells 31 and 0 to 23)
  when the header of the next frame arrives.
\<close>

definition queued_frame :: RXFrame where
  "queued_frame = \<lparr>cid = 2, length' = 25, udp_server = False, ip = [0, 0, 0, 0], port = 0\<rparr>"

definition full_ring :: GSCore where
  "full_ring =
     example_core\<lparr>rx_state := GS_RX_BULK,
       rx_data := map of_nat [0..<32], rx_data_head := 2, rx_data_tail := 3,
       tail_frame := no_frame\<lparr>cid := 1, length' := 40\<rparr>,
       head_frame := no_frame\<lparr>cid := 1, length' := 9\<rparr>\<rparr>"

definition queued_header_ring :: GSCore where
  "queued_header_ring =
     example_core\<lparr>rx_state := GS_RX_BULK,
       rx_data := [0x62, 0x62, 0x00] @ example_frame_bytes queued_frame @ replicate 19 0x61,
       rx_data_head := 2, rx_data_tail := 3,
       tail_frame := no_frame\<lparr>cid := 1, length' := 0\<rparr>,
       head_frame := queued_frame\<lparr>length' := 4\<rparr>\<rparr>"

definition wrapped_ring :: GSCore where
  "wrapped_ring =
     example_core\<lparr>rx_state := GS_RX_ESC_Z,
       rx_data := map of_nat [100..<132], rx_data_head := 24, rx_data_tail := 31,
       tail_frame := no_frame\<lparr>cid := 1, length' := 25\<rparr>,
       head_frame := no_frame\<lparr>cid := 2, length' := 5\<rparr>\<rparr>"



text \<open>
  Two runs from the initial object, with a ring buffer of 32 bytes. In the first, a frame
  of 31 bytes for cid 3 arrives and is read by the application, then a frame of 25 bytes
  (100 to 124) for cid 1 arrives: its payload wraps around the end of the array. In the
  second, a frame of 3 bytes for cid 1 and the header of a frame of 25 bytes for cid 2
  arrive, the application reads the 3 bytes, and 21 bytes of the second frame arrive: the
  buffer is full, \<open>tail_frame\<close> is used up and the header of the second frame is at the
  tail.
\<close>

definition wrapped_scenario :: "GSCore option" where
  "wrapped_scenario = do {
     s1 \<leftarrow> receive example_config ([0x1B] @ bytes ''Z30031'' @ replicate 31 0x41) example_core;
     (_, s2) \<leftarrow> consume example_config 3 31 s1;
     receive example_config ([0x1B] @ bytes ''Z10025'' @ map of_nat [100..<125]) s2
   }"

definition queued_scenario :: "GSCore option" where
  "queued_scenario = do {
     s1 \<leftarrow> receive example_config
            ([0x1B] @ bytes ''Z10003abc'' @ [0x1B] @ bytes ''Z20025'') example_core;
     (_, s2) \<leftarrow> consume example_config 1 3 s1;
     receive example_config (replicate 21 0x61) s2
   }"

text \<open>
  A serial input for \<open>readResponse\<close>: a line of data, then the reply "0", and the clock
  readings of the calls of \<^verbatim>\<open>millis()\<close>.
\<close>

definition reply_after_data :: GSCore where
  "reply_after_data =
     example_core\<lparr>serial_rx := bytes ''ABC'' @ [0x0D, 0x0A] @ bytes ''0'' @ [0x0D, 0x0A],
                  millis_trace := [0, 1, 6000]\<rparr>"

text \<open>
  An object on an SPI transport (slave select on pin 10), to which the module answers
  idle bytes.
\<close>

definition spi_core :: GSCore where
  "spi_core = example_core\<lparr>serial := False, ss_pin := 10, data_ready_pin := 2,
                            spi_rx := replicate 8 0xF5\<rparr>"


text \<open>
  A third run from the initial object: a frame of 22 bytes for cid 1 arrives, then the
  header of a frame for cid 2, which is written at the cells 22 to 31.
\<close>

definition overrun_scenario :: "GSCore option" where
  "overrun_scenario =
     receive example_config
       ([0x1B] @ bytes ''Z10022'' @ replicate 22 0x61 @ [0x1B] @ bytes ''Z20005'') example_core"

section \<open>Properties of the connection table and the events\<close>

lemma conn_upd_simps [simp]:
  "connections (conn_upd c f s) = (connections s)[unat c := f (connections s ! unat c)]"
  "events (conn_upd c f s) = events s"
  "associated (conn_upd c f s) = associated s"
  "ncm_auto_cid (conn_upd c f s) = ncm_auto_cid s"
  by (simp_all add: conn_upd_def)

lemma processDisconnect_Some:
  assumes "unat c < length (connections s)"
  shows "\<exists>s'. processDisconnect cfg c s = Some s'
     \<and> length (connections s') = length (connections s)
     \<and> associated s' = associated s
     \<and> (EVENT_ASSOCIATED \<in> events s' \<longleftrightarrow> EVENT_ASSOCIATED \<in> events s)
     \<and> (EVENT_DISASSOCIATED \<in> events s' \<longleftrightarrow> EVENT_DISASSOCIATED \<in> events s)
     \<and> \<not> connected (connections s' ! unat c)
     \<and> error (connections s' ! unat c) = error (connections s ! unat c)
     \<and> (\<forall>i. i \<noteq> unat c \<longrightarrow> connections s' ! i = connections s ! i)"
  using assms
  by (auto simp: processDisconnect_def conn_at_def Let_def)

lemma disassociate_loop_Some:
  assumes "\<forall>c \<in> set cs. c < length (connections s) \<and> c < 256" and "distinct cs"
  shows "\<exists>s'. disassociate_loop cfg cs s = Some s' \<and> loop_post cs s s'"
  using assms
proof (induction cs arbitrary: s)
  case Nil
  then show ?case by (simp add: loop_post_def)
next
  case (Cons c cs)
  have c: "c < length (connections s)" "c < 256" "c \<notin> set cs" "distinct cs"
    using Cons.prems by auto
  have u: "unat (of_nat c :: cid_t) = c"
    using c(2) by (simp add: unat_of_nat)
  define s0 where "s0 = (if connected (connections s ! c)
      then conn_upd (of_nat c) (\<lambda>k. k\<lparr>error := True\<rparr>) s else s)"
  have l0: "length (connections s0) = length (connections s)"
    by (simp add: s0_def)
  obtain s1 where s1: "(if connected (connections s ! c)
            then processDisconnect cfg (of_nat c) (conn_upd (of_nat c) (\<lambda>k. k\<lparr>error := True\<rparr>) s)
            else Some s) = Some s1"
     and p1: "length (connections s1) = length (connections s)"
        "associated s1 = associated s"
        "EVENT_ASSOCIATED \<in> events s1 \<longleftrightarrow> EVENT_ASSOCIATED \<in> events s"
        "EVENT_DISASSOCIATED \<in> events s1 \<longleftrightarrow> EVENT_DISASSOCIATED \<in> events s"
        "\<not> connected (connections s1 ! c)"
        "connected (connections s ! c) \<longrightarrow> error (connections s1 ! c)"
        "\<forall>i. i \<noteq> c \<longrightarrow> connections s1 ! i = connections s ! i"
  proof (cases "connected (connections s ! c)")
    case True
    let ?t = "conn_upd (of_nat c) (\<lambda>k. k\<lparr>error := True\<rparr>) s"
    have "unat (of_nat c :: cid_t) < length (connections ?t)" using c u by simp
    from processDisconnect_Some [OF this, of cfg] obtain t' where
      t': "processDisconnect cfg (of_nat c) ?t = Some t'"
        "length (connections t') = length (connections ?t)"
        "associated t' = associated ?t"
        "EVENT_ASSOCIATED \<in> events t' \<longleftrightarrow> EVENT_ASSOCIATED \<in> events ?t"
        "EVENT_DISASSOCIATED \<in> events t' \<longleftrightarrow> EVENT_DISASSOCIATED \<in> events ?t"
        "\<not> connected (connections t' ! unat (of_nat c :: cid_t))"
        "error (connections t' ! unat (of_nat c :: cid_t)) = error (connections ?t ! unat (of_nat c :: cid_t))"
        "\<forall>i. i \<noteq> unat (of_nat c :: cid_t) \<longrightarrow> connections t' ! i = connections ?t ! i"
      by blast
    show ?thesis
      using True t' c u by (intro that [of t']) (simp_all)
  next
    case False
    then show ?thesis by (intro that [of s]) simp_all
  qed
  have "\<forall>c \<in> set cs. c < length (connections s1) \<and> c < 256"
    using Cons.prems p1(1) by simp
  from Cons.IH [OF this c(4)] obtain s' where
    s': "disassociate_loop cfg cs s1 = Some s'" "loop_post cs s1 s'" by blast
  have "disassociate_loop cfg (c # cs) s = Some s'"
    using s1 s'(1) c(1) u by (simp add: conn_at_def)
  moreover have "loop_post (c # cs) s s'"
    using s'(2) p1 c unfolding loop_post_def by (auto)
  ultimately show ?case by blast
qed

lemma processDisassociation_Some:
  assumes "associated s" and "length (connections s) = Suc (MAX_CID cfg)" and "MAX_CID cfg < 255"
  shows "\<exists>s'. processDisassociation cfg s = Some s'
     \<and> loop_post [0..<Suc (MAX_CID cfg)]
          (s\<lparr>events := (if EVENT_ASSOCIATED \<in> events s then events s - {EVENT_ASSOCIATED}
                         else insert EVENT_DISASSOCIATED (events s)),
             associated := False\<rparr>) s'"
proof -
  let ?t = "s\<lparr>events := (if EVENT_ASSOCIATED \<in> events s then events s - {EVENT_ASSOCIATED}
                         else insert EVENT_DISASSOCIATED (events s)),
             associated := False\<rparr>"
  have "\<forall>c \<in> set [0..<Suc (MAX_CID cfg)]. c < length (connections ?t) \<and> c < 256"
    using assms(2,3) by auto
  from disassociate_loop_Some [OF this, of cfg] obtain s' where
    "disassociate_loop cfg [0..<Suc (MAX_CID cfg)] ?t = Some s'"
    "loop_post [0..<Suc (MAX_CID cfg)] ?t s'"
    by auto
  then show ?thesis
    using assms by (auto simp: processDisassociation_def Let_def)
qed

lemma dispatch_fired:
  "set (fst (dispatch cb s)) = {e. cb e \<and> e \<in> events s}"
proof -
  have u: "\<And>e. e \<in> set [EVENT_NCM_DISCONNECTED, EVENT_DISASSOCIATED, EVENT_ASSOCIATED, EVENT_NCM_CONNECTED]"
    subgoal for e by (cases e) simp_all
    done
  show ?thesis
    by (simp only: dispatch_def Let_def fst_conv set_filter u) simp
qed

lemma dispatch_once:
  "count_list (fst (dispatch cb s)) e = (if cb e \<and> e \<in> events s then 1 else 0)"
  by (cases e) (simp_all add: dispatch_def)

text \<open>
  Claim C3, as amended. In an associated state whose connection table has
  \<open>MAX_CID + 1\<close> entries, \<open>processDisassociation\<close> returns, the object is no longer
  associated, no cid is connected, and every cid that was connected has its error flag set.
  When no ASSOCIATED event is pending, the DISASSOCIATED flag is set, and the dispatch
  invokes the disassociation callback once, however many connections were closed. When an
  ASSOCIATED event is still pending, that event is cancelled instead and no DISASSOCIATED
  event is queued.
\<close>

theorem disassociation_cascades:
  assumes "associated s" and "length (connections s) = Suc (MAX_CID cfg)" and "MAX_CID cfg < 255"
  shows "\<exists>s'. processDisassociation cfg s = Some s'
     \<and> \<not> associated s'
     \<and> length (connections s') = length (connections s)
     \<and> (\<forall>i < length (connections s).
           \<not> connected (connections s' ! i)
           \<and> (connected (connections s ! i) \<longrightarrow> error (connections s' ! i)))
     \<and> (if EVENT_ASSOCIATED \<in> events s
        then EVENT_ASSOCIATED \<notin> events s'
           \<and> (EVENT_DISASSOCIATED \<in> events s' \<longleftrightarrow> EVENT_DISASSOCIATED \<in> events s)
        else EVENT_DISASSOCIATED \<in> events s'
           \<and> (cb EVENT_DISASSOCIATED \<longrightarrow>
                count_list (fst (dispatch cb s')) EVENT_DISASSOCIATED = 1))"
proof -
  from processDisassociation_Some [OF assms] obtain s' where
    s': "processDisassociation cfg s = Some s'"
    and post: "loop_post [0..<Suc (MAX_CID cfg)]
          (s\<lparr>events := (if EVENT_ASSOCIATED \<in> events s then events s - {EVENT_ASSOCIATED}
                         else insert EVENT_DISASSOCIATED (events s)),
             associated := False\<rparr>) s'"
    by blast
  have a: "\<not> associated s'" "length (connections s') = length (connections s)"
    using post by (simp_all add: loop_post_def)
  have b: "\<forall>i < length (connections s).
           \<not> connected (connections s' ! i)
           \<and> (connected (connections s ! i) \<longrightarrow> error (connections s' ! i))"
    using post assms(2) unfolding loop_post_def by (auto simp del: upt_Suc)
  have c: "EVENT_ASSOCIATED \<in> events s \<Longrightarrow> EVENT_ASSOCIATED \<notin> events s'
           \<and> (EVENT_DISASSOCIATED \<in> events s' \<longleftrightarrow> EVENT_DISASSOCIATED \<in> events s)"
    using post by (simp add: loop_post_def)
  have d: "EVENT_ASSOCIATED \<notin> events s \<Longrightarrow> EVENT_DISASSOCIATED \<in> events s'"
    using post by (simp add: loop_post_def)
  show ?thesis
    using s' a b c d by (simp add: dispatch_once)
qed

theorem disassociation_cascades_witness:
  "associated two_connections
   \<and> length (connections two_connections) = Suc (MAX_CID example_config)
   \<and> MAX_CID example_config < 255
   \<and> connected (connections two_connections ! 1)
   \<and> connected (connections two_connections ! 3)
   \<and> EVENT_ASSOCIATED \<notin> events two_connections
   \<and> (\<exists>s'. processDisassociation example_config two_connections = Some s'
        \<and> \<not> connected (connections s' ! 1) \<and> error (connections s' ! 1)
        \<and> \<not> connected (connections s' ! 3) \<and> error (connections s' ! 3)
        \<and> EVENT_DISASSOCIATED \<in> events s'
        \<and> count_list (fst (dispatch (\<lambda>e. True) s')) EVENT_DISASSOCIATED = 1)"
proof -
  have h: "associated two_connections"
    "length (connections two_connections) = Suc (MAX_CID example_config)"
    "MAX_CID example_config < 255"
    by (simp_all add: two_connections_def example_core_def example_config_def)
  have c: "connected (connections two_connections ! 1)"
    "connected (connections two_connections ! 3)"
    "EVENT_ASSOCIATED \<notin> events two_connections"
    "1 < length (connections two_connections)" "3 < length (connections two_connections)"
    by (simp_all add: two_connections_def example_core_def)
  show ?thesis
    using h c disassociation_cascades [OF h, of "\<lambda>e. True"] by auto
qed

text \<open>
  Claim C3 as stated fails in an associated state with cids 1 and 3 connected and an
  ASSOCIATED event pending: no DISASSOCIATED event is queued.
\<close>

theorem disassociation_after_pending_association:
  "associated (two_connections\<lparr>events := {EVENT_ASSOCIATED}\<rparr>)
   \<and> map_option (\<lambda>s'. EVENT_DISASSOCIATED \<in> events s')
       (processDisassociation example_config (two_connections\<lparr>events := {EVENT_ASSOCIATED}\<rparr>))
     = Some False"
  by code_simp

text \<open>
  Claim C8. With no dispatch in between, \<open>processAssociation\<close> followed by
  \<open>processDisassociation\<close> leaves no ASSOCIATED flag and the DISASSOCIATED flag as
  it was before the disassociation (and, when the object was not associated at first, as
  it was before the pair). \<open>processConnect\<close> of the connection manager's cid
  followed by \<open>processDisconnect\<close> of the same cid removes the NCM_CONNECTED flag and
  changes no other flag. The dispatch that follows invokes neither the association nor
  the NCM-connect callback.
\<close>

theorem same_cycle_pairs_cancel:
  assumes "length (connections s) = Suc (MAX_CID cfg)" and "MAX_CID cfg < 255"
    and "unat c \<le> MAX_CID cfg"
  shows "(\<exists>s1 s2. processAssociation cfg s = Some s1 \<and> processDisassociation cfg s1 = Some s2
            \<and> EVENT_ASSOCIATED \<in> events s1
            \<and> EVENT_ASSOCIATED \<notin> events s2
            \<and> (EVENT_DISASSOCIATED \<in> events s2 \<longleftrightarrow> EVENT_DISASSOCIATED \<in> events s1)
            \<and> (\<not> associated s \<longrightarrow>
                 (EVENT_DISASSOCIATED \<in> events s2 \<longleftrightarrow> EVENT_DISASSOCIATED \<in> events s))
            \<and> EVENT_ASSOCIATED \<notin> set (fst (dispatch cb s2)))
       \<and> (\<exists>t1 t2. processConnect cfg c rip rport lport True s = Some t1
            \<and> processDisconnect cfg c t1 = Some t2
            \<and> EVENT_NCM_CONNECTED \<in> events t1
            \<and> events t2 = events t1 - {EVENT_NCM_CONNECTED}
            \<and> (\<not> connected (connections s ! unat c) \<longrightarrow>
                 events t2 = events s - {EVENT_NCM_CONNECTED})
            \<and> EVENT_NCM_CONNECTED \<notin> set (fst (dispatch cb t2)))"
proof -
  have A: "\<exists>s1 s2. processAssociation cfg s = Some s1 \<and> processDisassociation cfg s1 = Some s2
            \<and> EVENT_ASSOCIATED \<in> events s1
            \<and> EVENT_ASSOCIATED \<notin> events s2
            \<and> (EVENT_DISASSOCIATED \<in> events s2 \<longleftrightarrow> EVENT_DISASSOCIATED \<in> events s1)
            \<and> (\<not> associated s \<longrightarrow>
                 (EVENT_DISASSOCIATED \<in> events s2 \<longleftrightarrow> EVENT_DISASSOCIATED \<in> events s))
            \<and> EVENT_ASSOCIATED \<notin> set (fst (dispatch cb s2))"
  proof -
    obtain s0 where s0: "(if associated s then processDisassociation cfg s else Some s) = Some s0"
      and l0: "length (connections s0) = length (connections s)"
      and e0: "\<not> associated s \<longrightarrow> s0 = s"
    proof (cases "associated s")
      case True
      from processDisassociation_Some [OF True assms(1,2)] obtain s' where
        "processDisassociation cfg s = Some s'" "length (connections s') = length (connections s)"
        by (auto simp: loop_post_def)
      then show ?thesis using True by (intro that [of s']) simp_all
    next
      case False
      then show ?thesis by (intro that [of s]) simp_all
    qed
    define s1 where "s1 = s0\<lparr>associated := True, events := insert EVENT_ASSOCIATED (events s0)\<rparr>"
    have p1: "processAssociation cfg s = Some s1"
      using s0 by (auto simp: processAssociation_def s1_def split: if_splits)
    have "associated s1" "length (connections s1) = Suc (MAX_CID cfg)"
      using l0 assms(1) by (simp_all add: s1_def)
    from processDisassociation_Some [OF this assms(2)] obtain s2 where
      s2: "processDisassociation cfg s1 = Some s2"
      and post: "loop_post [0..<Suc (MAX_CID cfg)]
          (s1\<lparr>events := (if EVENT_ASSOCIATED \<in> events s1 then events s1 - {EVENT_ASSOCIATED}
                         else insert EVENT_DISASSOCIATED (events s1)),
             associated := False\<rparr>) s2"
      by blast
    have q: "EVENT_ASSOCIATED \<in> events s1" "EVENT_ASSOCIATED \<notin> events s2"
      "EVENT_DISASSOCIATED \<in> events s2 \<longleftrightarrow> EVENT_DISASSOCIATED \<in> events s1"
      using post by (simp_all add: loop_post_def s1_def)
    have "\<not> associated s \<longrightarrow>
                 (EVENT_DISASSOCIATED \<in> events s2 \<longleftrightarrow> EVENT_DISASSOCIATED \<in> events s)"
      using q(3) e0 by (auto simp: s1_def)
    then show ?thesis
      using p1 s2 q by (simp add: dispatch_fired)
  qed
  have B: "\<exists>t1 t2. processConnect cfg c rip rport lport True s = Some t1
            \<and> processDisconnect cfg c t1 = Some t2
            \<and> EVENT_NCM_CONNECTED \<in> events t1
            \<and> events t2 = events t1 - {EVENT_NCM_CONNECTED}
            \<and> (\<not> connected (connections s ! unat c) \<longrightarrow>
                 events t2 = events s - {EVENT_NCM_CONNECTED})
            \<and> EVENT_NCM_CONNECTED \<notin> set (fst (dispatch cb t2))"
  proof -
    have c: "unat c < length (connections s)"
      using assms(1,3) by simp
    from processDisconnect_Some [OF c, of cfg] obtain s0 where
      s0: "processDisconnect cfg c s = Some s0" "length (connections s0) = length (connections s)"
      by blast
    define u where "u = (if connected (connections s ! unat c) then s0 else s)"
    have lu: "length (connections u) = length (connections s)"
      using s0 by (simp add: u_def)
    define t1 where "t1 = conn_upd c (\<lambda>k. k\<lparr>remote_ip := rip, remote_port := rport,
        local_port := lport, error := False, connected := True\<rparr>)
        (u\<lparr>ncm_auto_cid := c, events := insert EVENT_NCM_CONNECTED (events u)\<rparr>)"
    have p1: "processConnect cfg c rip rport lport True s = Some t1"
      using c s0 by (simp add: processConnect_def conn_at_def t1_def u_def)
    define t2 where "t2 = (conn_upd c (\<lambda>k. k\<lparr>connected := False, ssl := False\<rparr>) t1)
        \<lparr>ncm_auto_cid := INVALID_CID cfg, events := events t1 - {EVENT_NCM_CONNECTED}\<rparr>"
    have p2: "processDisconnect cfg c t1 = Some t2"
      using c lu by (simp add: processDisconnect_def conn_at_def t1_def t2_def Let_def)
    have e: "EVENT_NCM_CONNECTED \<in> events t1" "events t2 = events t1 - {EVENT_NCM_CONNECTED}"
      by (simp_all add: t1_def t2_def)
    have "\<not> connected (connections s ! unat c) \<longrightarrow> events t2 = events s - {EVENT_NCM_CONNECTED}"
      by (auto simp: t1_def t2_def u_def)
    then show ?thesis
      using p1 p2 e by (simp add: dispatch_fired)
  qed
  from A B show ?thesis by blast
qed

theorem same_cycle_pairs_cancel_witness:
  "length (connections example_core) = Suc (MAX_CID example_config)
   \<and> MAX_CID example_config < 255
   \<and> unat (2 :: cid_t) \<le> MAX_CID example_config
   \<and> \<not> associated example_core
   \<and> \<not> connected (connections example_core ! unat (2 :: cid_t))
   \<and> (\<exists>s1 s2. processAssociation example_config example_core = Some s1
         \<and> processDisassociation example_config s1 = Some s2
         \<and> EVENT_ASSOCIATED \<in> events s1 \<and> events s2 = {}
         \<and> fst (dispatch (\<lambda>e. True) s2) = [])
   \<and> (\<exists>t1 t2. processConnect example_config 2 0 0 0 True example_core = Some t1
         \<and> processDisconnect example_config 2 t1 = Some t2
         \<and> EVENT_NCM_CONNECTED \<in> events t1 \<and> events t2 = {}
         \<and> fst (dispatch (\<lambda>e. True) t2) = [])"
proof -
  have h: "length (connections example_core) = Suc (MAX_CID example_config)"
    "MAX_CID example_config < 255" "unat (2 :: cid_t) \<le> MAX_CID example_config"
    by (simp_all add: example_core_def example_config_def)
  have n: "\<not> associated example_core"
    "\<not> connected (connections example_core ! unat (2 :: cid_t))"
    "events example_core = {}"
    by (simp_all add: example_core_def no_connection_def)
  have d: "\<And>s. events s = {} \<Longrightarrow> fst (dispatch (\<lambda>e. True) s) = []"
    by (simp add: dispatch_def)
  from same_cycle_pairs_cancel [OF h, of "\<lambda>e. True" 0 0 0]
  obtain s1 s2 t1 t2 where
    a: "processAssociation example_config example_core = Some s1"
       "processDisassociation example_config s1 = Some s2"
       "EVENT_ASSOCIATED \<in> events s1" "EVENT_ASSOCIATED \<notin> events s2"
       "\<not> associated example_core \<longrightarrow>
          (EVENT_DISASSOCIATED \<in> events s2 \<longleftrightarrow> EVENT_DISASSOCIATED \<in> events example_core)"
    and b: "processConnect example_config 2 0 0 0 True example_core = Some t1"
       "processDisconnect example_config 2 t1 = Some t2"
       "EVENT_NCM_CONNECTED \<in> events t1"
       "\<not> connected (connections example_core ! unat (2 :: cid_t)) \<longrightarrow>
          events t2 = events example_core - {EVENT_NCM_CONNECTED}"
    by blast
  have t2: "events t2 = {}" using b(4) n by simp
  have "processAssociation example_config example_core
      = Some (example_core\<lparr>associated := True, events := {EVENT_ASSOCIATED}\<rparr>)"
    using n by (simp add: processAssociation_def)
  then have "s1 = example_core\<lparr>associated := True, events := {EVENT_ASSOCIATED}\<rparr>"
    using a(1) by simp
  then have "map_option events (processDisassociation example_config s1) = Some {}"
    by (simp only:) code_simp
  then have s2: "events s2 = {}" using a(2) by simp
  show ?thesis
    using h n a(1,2,3) s2 b(1,2,3) t2 d [OF s2] d [OF t2] by blast
qed

section \<open>Properties of the parsing helpers\<close>

lemma parseIp_loop_takeWhile:
  "parseIp_loop i a (takeWhile (\<lambda>c. c \<noteq> 0) xs) = parseIp_loop i a xs"
  by (induction xs arbitrary: i a) auto

lemma parseIp_loop_bad_char:
  "0 \<notin> set xs \<Longrightarrow> \<exists>c \<in> set xs. c \<noteq> 0x2E \<and> \<not> is_digit c \<Longrightarrow> \<not> fst (parseIp_loop i a xs)"
proof (induction xs arbitrary: i a)
  case Nil
  then show ?case by simp
next
  case (Cons c cs)
  show ?case
  proof (cases "c \<noteq> 0x2E \<and> \<not> is_digit c")
    case True
    then have "c < 0x30 \<or> c > 0x39" by (auto simp: is_digit_def not_le)
    then show ?thesis using True Cons.prems(1) by auto
  next
    case False
    then have "\<exists>c \<in> set cs. c \<noteq> 0x2E \<and> \<not> is_digit c" using Cons.prems(2) by auto
    moreover have "0 \<notin> set cs" using Cons.prems(1) by simp
    ultimately have "\<And>i a. \<not> fst (parseIp_loop i a cs)" using Cons.IH by blast
    moreover have "c \<noteq> 0" using Cons.prems(1) by auto
    ultimately show ?thesis by simp
  qed
qed

lemma parseIp_loop_dots:
  "0 \<notin> set xs \<Longrightarrow> 4 \<le> i + count_list xs 0x2E \<Longrightarrow> i < 4 \<Longrightarrow> \<not> fst (parseIp_loop i a xs)"
proof (induction xs arbitrary: i a)
  case Nil
  then show ?case by simp
next
  case (Cons c cs)
  then show ?case by (auto split: if_splits)
qed

lemma dec_val_ge: "v \<le> dec_val v ds"
proof (induction ds arbitrary: v)
  case Nil
  show ?case by simp
next
  case (Cons c cs)
  have "v \<le> v * 10 + unat (c - 0x30)" by simp
  also have "\<dots> \<le> dec_val (v * 10 + unat (c - 0x30)) cs" by (rule Cons.IH)
  finally show ?case by simp
qed

lemma digit_val:
  assumes "is_digit c"
  shows "unat (c - 0x30) = unat c - 48" and "unat (c - 0x30) \<le> 9" and "48 \<le> unat c"
proof -
  have a: "48 \<le> unat c" "unat c \<le> 57"
    using assms by (simp_all add: is_digit_def word_le_nat_alt)
  show "unat (c - 0x30) = unat c - 48"
    using a by (simp add: unat_sub word_le_nat_alt)
  then show "unat (c - 0x30) \<le> 9" using a by simp
  show "48 \<le> unat c" by (rule a)
qed

lemma parseIp_loop_digits:
  assumes "list_all is_digit ds" and "i < length a" and "dec_val (unat (a ! i)) ds < 256"
  shows "parseIp_loop i a (ds @ rest) = parseIp_loop i (a[i := of_nat (dec_val (unat (a ! i)) ds)]) rest"
  using assms
proof (induction ds arbitrary: a)
  case Nil
  then show ?case by simp
next
  case (Cons c cs)
  let ?v = "unat (a ! i)"
  let ?d = "unat (c - 0x30)"
  have dig: "is_digit c" "list_all is_digit cs" using Cons.prems(1) by simp_all
  have d: "?d = unat c - 48" "?d \<le> 9" "48 \<le> unat c" using digit_val [OF dig(1)] by simp_all
  have "?v * 10 + ?d \<le> dec_val (?v * 10 + ?d) cs" by (rule dec_val_ge)
  then have lt: "?v * 10 + ?d < 256" using Cons.prems(3) by simp
  have c0: "c \<noteq> 0" "c \<noteq> 0x2E" "\<not> (c < 0x30 \<or> c > 0x39)"
    using dig(1) by (auto simp: is_digit_def)
  have r1: "\<not> a ! i \<ge> 100"
    using lt by (simp add: word_le_nat_alt)
  have r2: "\<not> (a ! i = 25 \<and> c > 0x35)"
  proof
    assume h: "a ! i = 25 \<and> c > 0x35"
    then have "?v = 25" by simp
    moreover have "53 < unat c" using h by (simp add: word_less_nat_alt)
    ultimately show False using lt d by simp
  qed
  let ?a' = "a[i := a ! i * 10 + (c - 0x30)]"
  have u: "unat (?a' ! i) = ?v * 10 + ?d"
    using Cons.prems(2) lt by (simp add: unat_word_ariths)
  have e: "(c = 0) = False" "(c = 0x2E) = False" "(c < 0x30 \<or> c > 0x39) = False"
    "(a ! i \<ge> 100 \<or> (a ! i = 25 \<and> c > 0x35)) = False"
    using c0 r1 r2 by simp_all
  have "parseIp_loop i a ((c # cs) @ rest) = parseIp_loop i ?a' (cs @ rest)"
    by (simp only: append_Cons parseIp_loop.simps e if_False)
  also have "\<dots> = parseIp_loop i (?a'[i := of_nat (dec_val (unat (?a' ! i)) cs)]) rest"
    using dig(2) Cons.prems(2,3) u by (intro Cons.IH) simp_all
  also have "\<dots> = parseIp_loop i (a[i := of_nat (dec_val (unat (a ! i)) (c # cs))]) rest"
    using u by simp
  finally show ?case .
qed


lemma dotted_quad_accepted:
  assumes "octet_text o1" "octet_text o2" "octet_text o3" "octet_text o4"
    and "rest = [] \<or> hd rest = 0"
  shows "parseIp_loop 0 [0, 0, 0, 0] (dotted_quad o1 o2 o3 o4 @ rest)
     = (True, [of_nat (dec_val 0 o1), of_nat (dec_val 0 o2), of_nat (dec_val 0 o3), of_nat (dec_val 0 o4)])"
proof -
  have o: "list_all is_digit o1" "list_all is_digit o2" "list_all is_digit o3" "list_all is_digit o4"
    "dec_val 0 o1 < 256" "dec_val 0 o2 < 256" "dec_val 0 o3 < 256" "dec_val 0 o4 < 256"
    using assms by (simp_all add: octet_text_def)
  have fin: "\<And>i a. parseIp_loop i a rest = (True, a)"
    using assms(5) by (cases rest) auto
  have dot: "\<And>i a xs. Suc i < 4 \<Longrightarrow> parseIp_loop i a (0x2E # xs) = parseIp_loop (Suc i) (a[Suc i := 0]) xs"
    by simp
  let ?a1 = "[of_nat (dec_val 0 o1), 0, 0, 0] :: byte list"
  let ?a2 = "[of_nat (dec_val 0 o1), of_nat (dec_val 0 o2), 0, 0] :: byte list"
  let ?a3 = "[of_nat (dec_val 0 o1), of_nat (dec_val 0 o2), of_nat (dec_val 0 o3), 0] :: byte list"
  let ?a4 = "[of_nat (dec_val 0 o1), of_nat (dec_val 0 o2), of_nat (dec_val 0 o3), of_nat (dec_val 0 o4)] :: byte list"
  have "parseIp_loop 0 [0, 0, 0, 0] (dotted_quad o1 o2 o3 o4 @ rest)
      = parseIp_loop 0 [0, 0, 0, 0] (o1 @ (0x2E # o2 @ (0x2E # o3 @ (0x2E # o4 @ rest))))"
    by (simp add: dotted_quad_def)
  also have "\<dots> = parseIp_loop 0 ?a1 (0x2E # o2 @ (0x2E # o3 @ (0x2E # o4 @ rest)))"
    using parseIp_loop_digits [of o1 0 "[0, 0, 0, 0]"] o by simp
  also have "\<dots> = parseIp_loop 1 ?a1 (o2 @ (0x2E # o3 @ (0x2E # o4 @ rest)))"
    by (subst dot) simp_all
  also have "\<dots> = parseIp_loop 1 ?a2 (0x2E # o3 @ (0x2E # o4 @ rest))"
    using parseIp_loop_digits [of o2 1 ?a1] o by simp
  also have "\<dots> = parseIp_loop 2 ?a2 (o3 @ (0x2E # o4 @ rest))"
    by (subst dot) (simp_all add: numeral_2_eq_2)
  also have "\<dots> = parseIp_loop 2 ?a3 (0x2E # o4 @ rest)"
    using parseIp_loop_digits [of o3 2 ?a2] o by simp
  also have "\<dots> = parseIp_loop 3 ?a3 (o4 @ rest)"
    by (subst dot) (simp_all add: numeral_3_eq_3 numeral_2_eq_2)
  also have "\<dots> = parseIp_loop 3 ?a4 rest"
    using parseIp_loop_digits [of o4 3 ?a3] o by simp
  also have "\<dots> = (True, ?a4)" by (rule fin)
  finally show ?thesis .
qed

text \<open>
  Claim C5, as amended. \<open>parseIpAddress\<close> returns false whenever the text it scans
  (up to the given length or the first NUL) holds a character that is neither a digit nor
  a dot, or four or more dots (more than four octets). It returns true, and stores the
  four values, for every dotted quad of four octet texts with values up to 255, whether
  the text ends the string or is delimited by the length.
\<close>

theorem parseIpAddress_checks:
  "((\<exists>c \<in> set (scanned str len). c \<noteq> 0x2E \<and> \<not> is_digit c) \<longrightarrow> \<not> fst (parseIpAddress str len))
   \<and> (4 \<le> count_list (scanned str len) 0x2E \<longrightarrow> \<not> fst (parseIpAddress str len))
   \<and> (octet_text o1 \<and> octet_text o2 \<and> octet_text o3 \<and> octet_text o4 \<longrightarrow>
        parseIpAddress (dotted_quad o1 o2 o3 o4) 0
          = (True, [of_nat (dec_val 0 o1), of_nat (dec_val 0 o2),
                    of_nat (dec_val 0 o3), of_nat (dec_val 0 o4)])
        \<and> parseIpAddress (dotted_quad o1 o2 o3 o4 @ rest) (length (dotted_quad o1 o2 o3 o4))
          = (True, [of_nat (dec_val 0 o1), of_nat (dec_val 0 o2),
                    of_nat (dec_val 0 o3), of_nat (dec_val 0 o4)]))"
proof -
  have z: "0 \<notin> set (scanned str len)"
    unfolding scanned_def by (auto dest: set_takeWhileD)
  have p: "parseIpAddress str len = parseIp_loop 0 [0, 0, 0, 0] (scanned str len)"
    by (simp add: parseIpAddress_def scanned_def parseIp_loop_takeWhile)
  have A: "(\<exists>c \<in> set (scanned str len). c \<noteq> 0x2E \<and> \<not> is_digit c) \<longrightarrow> \<not> fst (parseIpAddress str len)"
    using parseIp_loop_bad_char [OF z] p by simp
  have B: "4 \<le> count_list (scanned str len) 0x2E \<longrightarrow> \<not> fst (parseIpAddress str len)"
    using parseIp_loop_dots [OF z, of 0] p by simp
  have C: "octet_text o1 \<and> octet_text o2 \<and> octet_text o3 \<and> octet_text o4 \<longrightarrow>
        parseIpAddress (dotted_quad o1 o2 o3 o4) 0
          = (True, [of_nat (dec_val 0 o1), of_nat (dec_val 0 o2),
                    of_nat (dec_val 0 o3), of_nat (dec_val 0 o4)])
        \<and> parseIpAddress (dotted_quad o1 o2 o3 o4 @ rest) (length (dotted_quad o1 o2 o3 o4))
          = (True, [of_nat (dec_val 0 o1), of_nat (dec_val 0 o2),
                    of_nat (dec_val 0 o3), of_nat (dec_val 0 o4)])"
  proof
    assume h: "octet_text o1 \<and> octet_text o2 \<and> octet_text o3 \<and> octet_text o4"
    have ne: "dotted_quad o1 o2 o3 o4 \<noteq> []" by (simp add: dotted_quad_def)
    have "parseIpAddress (dotted_quad o1 o2 o3 o4) 0
       = parseIp_loop 0 [0, 0, 0, 0] (dotted_quad o1 o2 o3 o4 @ [])"
      by (simp add: parseIpAddress_def)
    also have "\<dots> = (True, [of_nat (dec_val 0 o1), of_nat (dec_val 0 o2),
                    of_nat (dec_val 0 o3), of_nat (dec_val 0 o4)])"
      using h by (intro dotted_quad_accepted) simp_all
    finally have 1: "parseIpAddress (dotted_quad o1 o2 o3 o4) 0
       = (True, [of_nat (dec_val 0 o1), of_nat (dec_val 0 o2),
                    of_nat (dec_val 0 o3), of_nat (dec_val 0 o4)])" .
    have "parseIpAddress (dotted_quad o1 o2 o3 o4 @ rest) (length (dotted_quad o1 o2 o3 o4))
       = parseIp_loop 0 [0, 0, 0, 0] (dotted_quad o1 o2 o3 o4 @ [])"
      using ne by (simp add: parseIpAddress_def)
    also have "\<dots> = (True, [of_nat (dec_val 0 o1), of_nat (dec_val 0 o2),
                    of_nat (dec_val 0 o3), of_nat (dec_val 0 o4)])"
      using h by (intro dotted_quad_accepted) simp_all
    finally show "parseIpAddress (dotted_quad o1 o2 o3 o4) 0
          = (True, [of_nat (dec_val 0 o1), of_nat (dec_val 0 o2),
                    of_nat (dec_val 0 o3), of_nat (dec_val 0 o4)])
        \<and> parseIpAddress (dotted_quad o1 o2 o3 o4 @ rest) (length (dotted_quad o1 o2 o3 o4))
          = (True, [of_nat (dec_val 0 o1), of_nat (dec_val 0 o2),
                    of_nat (dec_val 0 o3), of_nat (dec_val 0 o4)])"
      using 1 by simp
  qed
  from A B C show ?thesis by blast
qed


theorem parseIpAddress_checks_witness:
  "4 \<le> count_list (scanned (bytes ''1.2.3.4.5'') 0) 0x2E
   \<and> \<not> fst (parseIpAddress (bytes ''1.2.3.4.5'') 0)
   \<and> (\<exists>c \<in> set (scanned (bytes ''1:2:3:4'') 0). c \<noteq> 0x2E \<and> \<not> is_digit c)
   \<and> \<not> fst (parseIpAddress (bytes ''1:2:3:4'') 0)
   \<and> octet_text (bytes ''192'') \<and> octet_text (bytes ''168'')
   \<and> octet_text (bytes ''1'') \<and> octet_text (bytes ''255'')
   \<and> parseIpAddress (bytes ''192.168.1.255'') 0 = (True, [192, 168, 1, 255])
   \<and> parseIpAddress (bytes ''192.168.1.255 5000'') 13 = (True, [192, 168, 1, 255])"
proof -
  have a: "4 \<le> count_list (scanned (bytes ''1.2.3.4.5'') 0) 0x2E"
    by (simp add: scanned_def bytes_def)
  have b: "\<exists>c \<in> set (scanned (bytes ''1:2:3:4'') 0). c \<noteq> 0x2E \<and> \<not> is_digit c"
    by (simp add: scanned_def bytes_def is_digit_def)
  have c: "octet_text (bytes ''192'')" "octet_text (bytes ''168'')"
    "octet_text (bytes ''1'')" "octet_text (bytes ''255'')"
    by (simp_all add: octet_text_def bytes_def is_digit_def)
  have d: "dotted_quad (bytes ''192'') (bytes ''168'') (bytes ''1'') (bytes ''255'')
      = bytes ''192.168.1.255''"
    "dotted_quad (bytes ''192'') (bytes ''168'') (bytes ''1'') (bytes ''255'') @ bytes '' 5000''
      = bytes ''192.168.1.255 5000''"
    "length (dotted_quad (bytes ''192'') (bytes ''168'') (bytes ''1'') (bytes ''255'')) = 13"
    by (simp_all add: dotted_quad_def bytes_def)
  have v: "dec_val 0 (bytes ''192'') = 192" "dec_val 0 (bytes ''168'') = 168"
    "dec_val 0 (bytes ''1'') = 1" "dec_val 0 (bytes ''255'') = 255"
    by (simp_all add: bytes_def)
  have r1: "\<not> fst (parseIpAddress (bytes ''1.2.3.4.5'') 0)"
    using a parseIpAddress_checks [of "bytes ''1.2.3.4.5''" 0 "[]" "[]" "[]" "[]" "[]"] by blast
  have r2: "\<not> fst (parseIpAddress (bytes ''1:2:3:4'') 0)"
    using b parseIpAddress_checks [of "bytes ''1:2:3:4''" 0 "[]" "[]" "[]" "[]" "[]"] by blast
  have q: "parseIpAddress (dotted_quad (bytes ''192'') (bytes ''168'') (bytes ''1'') (bytes ''255'')) 0
        = (True, [of_nat (dec_val 0 (bytes ''192'')), of_nat (dec_val 0 (bytes ''168'')),
                  of_nat (dec_val 0 (bytes ''1'')), of_nat (dec_val 0 (bytes ''255''))])"
    "parseIpAddress (dotted_quad (bytes ''192'') (bytes ''168'') (bytes ''1'') (bytes ''255'')
          @ bytes '' 5000'')
        (length (dotted_quad (bytes ''192'') (bytes ''168'') (bytes ''1'') (bytes ''255'')))
        = (True, [of_nat (dec_val 0 (bytes ''192'')), of_nat (dec_val 0 (bytes ''168'')),
                  of_nat (dec_val 0 (bytes ''1'')), of_nat (dec_val 0 (bytes ''255''))])"
    using c parseIpAddress_checks [of "[]" 0 "bytes ''192''" "bytes ''168''" "bytes ''1''"
         "bytes ''255''" "bytes '' 5000''"] by blast+
  have r3: "parseIpAddress (bytes ''192.168.1.255'') 0 = (True, [192, 168, 1, 255])"
    using q(1) by (simp only: d(1) v) simp
  have r4: "parseIpAddress (bytes ''192.168.1.255 5000'') 13 = (True, [192, 168, 1, 255])"
    using q(2) by (simp only: d(2) d(3) v) simp
  show ?thesis
    using a b c r1 r2 r3 r4 by blast
qed

text \<open>
  Claim C5 as stated fails: \<open>parseIpAddress\<close> returns true for texts with fewer than
  four octets or with an empty octet, and for the octet 260, which it stores as 4.
\<close>

theorem parseIpAddress_accepts_malformed:
  "parseIpAddress (bytes ''1.2'') 0 = (True, [1, 2, 0, 0])
   \<and> parseIpAddress (bytes ''1..2'') 0 = (True, [1, 0, 2, 0])
   \<and> parseIpAddress (bytes ''260.0.0.0'') 0 = (True, [4, 0, 0, 0])"
  by (simp add: parseIpAddress_def bytes_def)

section \<open>Properties of the response parser\<close>

text \<open>
  Claim C1. Under an enumeration \<open>GSResponse\<close> in which \<open>GS_SUCCESS\<close> is 0 and the
  value 3 is \<open>GS_SOCK_FAIL\<close> or \<open>GS_CON_SUCCESS\<close>: the line "0" is \<open>GS_SUCCESS\<close>,
  "0 foo" is \<open>GS_UNKNOWN_RESPONSE\<close>, "OK" is \<open>GS_SUCCESS\<close>, "217" is
  \<open>GS_UNKNOWN_RESPONSE\<close>, and "3" with a NULL \<open>connect_cid\<close> is
  \<open>GS_UNKNOWN_RESPONSE\<close>. No line changes \<open>connect_cid\<close>.
\<close>

theorem response_classification:
  assumes "to_GSResponse cfg 0 = Some GS_SUCCESS"
    and "to_GSResponse cfg 3 \<in> {Some GS_SOCK_FAIL, Some GS_CON_SUCCESS}"
  shows "processResponseLine cfg (bytes ''0'') connect_cid = Some (GS_SUCCESS, connect_cid)
    \<and> processResponseLine cfg (bytes ''0 foo'') connect_cid = Some (GS_UNKNOWN_RESPONSE, connect_cid)
    \<and> processResponseLine cfg (bytes ''OK'') connect_cid = Some (GS_SUCCESS, connect_cid)
    \<and> processResponseLine cfg (bytes ''217'') connect_cid = Some (GS_UNKNOWN_RESPONSE, connect_cid)
    \<and> processResponseLine cfg (bytes ''3'') None = Some (GS_UNKNOWN_RESPONSE, None)"
proof -
  have 1: "processResponseLine cfg (bytes ''0'') connect_cid = Some (GS_SUCCESS, connect_cid)"
    using assms(1) by (simp add: processResponseLine_def response_switch_def bytes_def)
  have 2: "processResponseLine cfg (bytes ''0 foo'') connect_cid = Some (GS_UNKNOWN_RESPONSE, connect_cid)"
    using assms(1) by (simp add: processResponseLine_def response_switch_def bytes_def)
  have 3: "processResponseLine cfg (bytes ''OK'') connect_cid = Some (GS_SUCCESS, connect_cid)"
    by (simp add: processResponseLine_def response_switch_def bytes_def)
  have 4: "processResponseLine cfg (bytes ''217'') connect_cid = Some (GS_UNKNOWN_RESPONSE, connect_cid)"
    by (simp add: processResponseLine_def response_switch_def bytes_def)
  have 5: "processResponseLine cfg (bytes ''3'') None = Some (GS_UNKNOWN_RESPONSE, None)"
    using assms(2) by (auto simp: processResponseLine_def response_switch_def bytes_def)
  from 1 2 3 4 5 show ?thesis by simp
qed

theorem response_classification_witness:
  "to_GSResponse example_config 0 = Some GS_SUCCESS
   \<and> to_GSResponse example_config 3 = Some GS_SOCK_FAIL
   \<and> processResponseLine example_config (bytes ''0'') None = Some (GS_SUCCESS, None)
   \<and> processResponseLine example_config (bytes ''0 foo'') None = Some (GS_UNKNOWN_RESPONSE, None)
   \<and> processResponseLine example_config (bytes ''OK'') None = Some (GS_SUCCESS, None)
   \<and> processResponseLine example_config (bytes ''217'') None = Some (GS_UNKNOWN_RESPONSE, None)
   \<and> processResponseLine example_config (bytes ''3'') None = Some (GS_UNKNOWN_RESPONSE, None)"
proof -
  have h: "to_GSResponse example_config 0 = Some GS_SUCCESS"
    "to_GSResponse example_config 3 = Some GS_SOCK_FAIL"
    by (simp_all add: to_GSResponse_def example_config_def all_responses_def
        example_response_value_def)
  have h2: "to_GSResponse example_config 3 \<in> {Some GS_SOCK_FAIL, Some GS_CON_SUCCESS}"
    using h(2) by simp
  show ?thesis
    using h response_classification [OF h(1) h2, of None] by simp
qed

section \<open>Properties of the asynchronous dispatcher\<close>

lemma async_at_Some: "i < length (rx_async s) \<Longrightarrow> async_at s i = Some (rx_async s ! i)"
  by (simp add: async_at_def)

text \<open>
  Claim C10. When the header's subtype is above \<open>GS_ASYNC_MAX\<close>, or the payload is
  empty, or its first byte does not parse (as one digit, base 16) to the header's subtype,
  or it has arguments that do not start with a space, \<open>processAsync\<close> returns false and
  leaves the object as it was (connection table, events and association state included).
  So a message it accepts has none of these defects.
\<close>

theorem processAsync_rejects:
  assumes "unat (rx_async_len s) \<le> length (rx_async s)"
  shows "(rx_async_subtype s > GS_ASYNC_MAX
          \<or> rx_async_len s = 0
          \<or> parseNumber8 [rx_async s ! 0] 16 \<noteq> Some (rx_async_subtype s)
          \<or> (rx_async_len s \<noteq> 1 \<and> rx_async s ! 1 \<noteq> 0x20)
            \<longrightarrow> processAsync cfg s = Some (False, s))
       \<and> (processAsync cfg s = Some (True, s') \<longrightarrow>
            rx_async_subtype s \<le> GS_ASYNC_MAX
            \<and> rx_async_len s \<noteq> 0
            \<and> parseNumber8 [rx_async s ! 0] 16 = Some (rx_async_subtype s)
            \<and> (rx_async_len s = 1 \<or> rx_async s ! 1 = 0x20))"
proof -
  have rej: "processAsync cfg s = Some (False, s)"
    if r: "rx_async_subtype s > GS_ASYNC_MAX
          \<or> rx_async_len s = 0
          \<or> parseNumber8 [rx_async s ! 0] 16 \<noteq> Some (rx_async_subtype s)
          \<or> (rx_async_len s \<noteq> 1 \<and> rx_async s ! 1 \<noteq> 0x20)"
  proof (cases "rx_async_subtype s > GS_ASYNC_MAX \<or> rx_async_len s = 0")
    case True
    then show ?thesis by (auto simp: processAsync_def word_less_1)
  next
    case False
    then have n: "\<not> rx_async_subtype s > GS_ASYNC_MAX" "rx_async_len s \<noteq> 0" by simp_all
    have "unat (rx_async_len s) \<noteq> 0" using n(2) by (simp add: word_unat_eq_iff)
    then have l0: "0 < length (rx_async s)" using assms by (cases "rx_async s") auto
    have a0: "async_at s 0 = Some (rx_async s ! 0)" using l0 by (rule async_at_Some)
    show ?thesis
    proof (cases "parseNumber8 [rx_async s ! 0] 16 = Some (rx_async_subtype s)")
      case False
      then show ?thesis
        using n a0 by (auto simp: processAsync_def word_less_1 split: option.splits)
    next
      case True
      then have b: "rx_async_len s \<noteq> 1" "rx_async s ! 1 \<noteq> 0x20" using r n by auto
      have "unat (rx_async_len s) \<noteq> 1" using b(1)
        by (simp add: word_unat_eq_iff)
      then have "1 < length (rx_async s)"
        using assms \<open>unat (rx_async_len s) \<noteq> 0\<close> by simp
      then have a1: "async_at s 1 = Some (rx_async s ! 1)" by (rule async_at_Some)
      have "rx_async_len s - 1 \<noteq> 0" using b(1) by simp
      then show ?thesis
        using n a0 a1 True b(2) by (simp add: processAsync_def word_less_1 Let_def)
    qed
  qed
  show ?thesis
  proof (intro conjI impI)
    assume "rx_async_subtype s > GS_ASYNC_MAX
          \<or> rx_async_len s = 0
          \<or> parseNumber8 [rx_async s ! 0] 16 \<noteq> Some (rx_async_subtype s)
          \<or> (rx_async_len s \<noteq> 1 \<and> rx_async s ! 1 \<noteq> 0x20)"
    then show "processAsync cfg s = Some (False, s)" by (rule rej)
  next
    assume acc: "processAsync cfg s = Some (True, s')"
    show "rx_async_subtype s \<le> GS_ASYNC_MAX" using rej acc by (auto simp: not_less [symmetric])
    show "rx_async_len s \<noteq> 0" using rej acc by auto
    show "parseNumber8 [rx_async s ! 0] 16 = Some (rx_async_subtype s)" using rej acc by auto
    show "rx_async_len s = 1 \<or> rx_async s ! 1 = 0x20" using rej acc by auto
  qed
qed

theorem processAsync_rejects_witness:
  "unat (rx_async_len (async_message 2 ''1 5'')) \<le> length (rx_async (async_message 2 ''1 5''))
   \<and> parseNumber8 [rx_async (async_message 2 ''1 5'') ! 0] 16 = Some 1
   \<and> rx_async_subtype (async_message 2 ''1 5'') = 2
   \<and> processAsync example_config (async_message 2 ''1 5'') = Some (False, async_message 2 ''1 5'')
   \<and> unat (rx_async_len (async_message 1 ''1 5'')) \<le> length (rx_async (async_message 1 ''1 5''))
   \<and> map_option fst (processAsync example_config (async_message 1 ''1 5'')) = Some True
   \<and> parseNumber8 [rx_async (async_message 1 ''1 5'') ! 0] 16
       = Some (rx_async_subtype (async_message 1 ''1 5''))"
proof -
  have a: "unat (rx_async_len (async_message 2 ''1 5'')) \<le> length (rx_async (async_message 2 ''1 5''))"
    "parseNumber8 [rx_async (async_message 2 ''1 5'') ! 0] 16 = Some 1"
    "rx_async_subtype (async_message 2 ''1 5'') = 2"
    by (simp_all add: async_message_def bytes_def parseNumber8_def parseNumber16_def)
  have b: "unat (rx_async_len (async_message 1 ''1 5'')) \<le> length (rx_async (async_message 1 ''1 5''))"
    by (simp add: async_message_def bytes_def)
  have c: "map_option fst (processAsync example_config (async_message 1 ''1 5'')) = Some True"
    by code_simp
  then obtain s' where s': "processAsync example_config (async_message 1 ''1 5'') = Some (True, s')"
    by (cases "processAsync example_config (async_message 1 ''1 5'')") auto
  have r1: "processAsync example_config (async_message 2 ''1 5'') = Some (False, async_message 2 ''1 5'')"
    using processAsync_rejects [OF a(1), of example_config] a(2,3) by simp
  have r2: "parseNumber8 [rx_async (async_message 1 ''1 5'') ! 0] 16
       = Some (rx_async_subtype (async_message 1 ''1 5''))"
    using processAsync_rejects [OF b, of example_config s'] s' by blast
  show ?thesis using a b c r1 r2 by blast
qed

section \<open>Properties of the SPI framer and the fault latch\<close>

lemma spi_inv_preserved: "spi_inv s \<Longrightarrow> spi_inv (snd (processSpiSpecial cfg c s))"
  by (auto simp: spi_inv_def processSpiSpecial_def Let_def not_less)

lemma all_one_step:
  assumes "\<not> spi_prev_was_esc s" and "errorcount s \<le> 20"
  shows "\<not> spi_prev_was_esc (snd (processSpiSpecial cfg (SPI_SPECIAL_ALL_ONE cfg) s))"
    and "unrecoverableError s \<Longrightarrow> unrecoverableError (snd (processSpiSpecial cfg (SPI_SPECIAL_ALL_ONE cfg) s))"
    and "unat (errorcount s) = 20 \<Longrightarrow> unrecoverableError (snd (processSpiSpecial cfg (SPI_SPECIAL_ALL_ONE cfg) s))"
    and "unat (errorcount s) < 20 \<Longrightarrow>
           unat (errorcount (snd (processSpiSpecial cfg (SPI_SPECIAL_ALL_ONE cfg) s))) = unat (errorcount s) + 1
           \<and> unrecoverableError (snd (processSpiSpecial cfg (SPI_SPECIAL_ALL_ONE cfg) s)) = unrecoverableError s"
    and "errorcount (snd (processSpiSpecial cfg (SPI_SPECIAL_ALL_ONE cfg) s)) \<le> 20"
proof -
  have u: "unat (errorcount s) \<le> 20" using assms(2) by (simp add: word_le_nat_alt)
  then have p: "unat (errorcount s + 1) = unat (errorcount s) + 1"
    by (simp add: unat_word_ariths)
  have g: "errorcount s + 1 > 20 \<longleftrightarrow> unat (errorcount s) = 20"
    using u p by (auto simp: word_less_nat_alt)
  show "\<not> spi_prev_was_esc (snd (processSpiSpecial cfg (SPI_SPECIAL_ALL_ONE cfg) s))"
    using assms(1) by (simp add: processSpiSpecial_def Let_def)
  show "unrecoverableError s \<Longrightarrow> unrecoverableError (snd (processSpiSpecial cfg (SPI_SPECIAL_ALL_ONE cfg) s))"
    using assms(1) by (simp add: processSpiSpecial_def Let_def)
  show "unat (errorcount s) = 20 \<Longrightarrow> unrecoverableError (snd (processSpiSpecial cfg (SPI_SPECIAL_ALL_ONE cfg) s))"
    using assms(1) g by (simp add: processSpiSpecial_def Let_def)
  show "unat (errorcount s) < 20 \<Longrightarrow>
           unat (errorcount (snd (processSpiSpecial cfg (SPI_SPECIAL_ALL_ONE cfg) s))) = unat (errorcount s) + 1
           \<and> unrecoverableError (snd (processSpiSpecial cfg (SPI_SPECIAL_ALL_ONE cfg) s)) = unrecoverableError s"
    using assms(1) g p by (simp add: processSpiSpecial_def Let_def)
  show "errorcount (snd (processSpiSpecial cfg (SPI_SPECIAL_ALL_ONE cfg) s)) \<le> 20"
    using assms(1) g p u by (auto simp: processSpiSpecial_def Let_def word_le_nat_alt not_less)
qed

lemma feed_ones_latch:
  assumes "\<not> spi_prev_was_esc s" and "errorcount s \<le> 20"
    and "unrecoverableError s \<or> 21 \<le> unat (errorcount s) + n"
  shows "unrecoverableError (spi_feed cfg (replicate n (SPI_SPECIAL_ALL_ONE cfg)) s)"
  using assms
proof (induction n arbitrary: s)
  case 0
  then have "unat (errorcount s) \<le> 20" by (simp add: word_le_nat_alt)
  then show ?case using 0 by (simp add: spi_feed_def)
next
  case (Suc n)
  let ?s1 = "snd (processSpiSpecial cfg (SPI_SPECIAL_ALL_ONE cfg) s)"
  note st = all_one_step [OF Suc.prems(1,2), of cfg]
  have u: "unat (errorcount s) \<le> 20" using Suc.prems(2) by (simp add: word_le_nat_alt)
  have "unrecoverableError ?s1 \<or> 21 \<le> unat (errorcount ?s1) + n"
  proof (cases "unrecoverableError s \<or> unat (errorcount s) = 20")
    case True
    then show ?thesis using st(2,3) by blast
  next
    case False
    then have "unat (errorcount s) < 20" using u by simp
    then show ?thesis using st(4) Suc.prems(3) False by simp
  qed
  from Suc.IH [OF st(1) st(5) this]
  show ?case by (simp add: spi_feed_def)
qed

lemma feed_ones_below:
  assumes "\<not> spi_prev_was_esc s" and "\<not> unrecoverableError s" and "unat (errorcount s) + n \<le> 20"
  shows "\<not> unrecoverableError (spi_feed cfg (replicate n (SPI_SPECIAL_ALL_ONE cfg)) s)"
  using assms
proof (induction n arbitrary: s)
  case 0
  then show ?case by (simp add: spi_feed_def)
next
  case (Suc n)
  let ?s1 = "snd (processSpiSpecial cfg (SPI_SPECIAL_ALL_ONE cfg) s)"
  have le: "errorcount s \<le> 20" using Suc.prems(3) by (simp add: word_le_nat_alt)
  note st = all_one_step [OF Suc.prems(1) le, of cfg]
  have lt: "unat (errorcount s) < 20" using Suc.prems(3) by simp
  have "\<not> unrecoverableError ?s1" "unat (errorcount ?s1) + n \<le> 20"
    using st(4) [OF lt] Suc.prems(2,3) by simp_all
  from Suc.IH [OF st(1) this]
  show ?case by (simp add: spi_feed_def)
qed

lemma writeRaw_spi_faulted: "unrecoverableError s \<Longrightarrow> writeRaw_spi cfg fuel tries buf s = Some s"
  by (cases "(cfg, fuel, tries, buf, s)" rule: writeRaw_spi.cases) simp_all

text \<open>
  Claim C4. From a state that satisfies the invariant of the counter and in which the
  next byte is not escaped, 21 all-ones wire bytes in a row set \<open>unrecoverableError\<close>
  (and 20 do not, from a count of zero). A byte other than all-ones leaves the count at
  zero. Once the flag is set, \<open>readRaw\<close> returns -1 and \<open>writeRaw\<close> returns, both
  leaving the object and the traces of the transport as they were, and
  \<open>processSpiSpecial\<close> keeps the flag; \<open>end\<close> clears it.
\<close>

theorem fault_latch:
  assumes "spi_inv s"
  shows "(\<not> spi_prev_was_esc s \<longrightarrow>
            unrecoverableError (spi_feed cfg (replicate 21 (SPI_SPECIAL_ALL_ONE cfg)) s))
       \<and> (\<not> spi_prev_was_esc s \<and> \<not> unrecoverableError s \<and> errorcount s = 0 \<longrightarrow>
            \<not> unrecoverableError (spi_feed cfg (replicate 20 (SPI_SPECIAL_ALL_ONE cfg)) s))
       \<and> (c \<noteq> SPI_SPECIAL_ALL_ONE cfg \<longrightarrow> errorcount (snd (processSpiSpecial cfg c s)) = 0)
       \<and> (unrecoverableError t \<longrightarrow>
            readRaw cfg t = Some (None, t) \<and> writeRaw cfg fuel buf t = Some t
            \<and> unrecoverableError (snd (processSpiSpecial cfg c t)))
       \<and> \<not> unrecoverableError (end_session cfg t)"
proof -
  have i: "errorcount s \<le> 20" "spi_prev_was_esc s \<longrightarrow> errorcount s = 0"
    using assms by (simp_all add: spi_inv_def)
  have A: "\<not> spi_prev_was_esc s \<longrightarrow>
            unrecoverableError (spi_feed cfg (replicate 21 (SPI_SPECIAL_ALL_ONE cfg)) s)"
    using feed_ones_latch [of s 21 cfg] i(1) by simp
  have B: "\<not> spi_prev_was_esc s \<and> \<not> unrecoverableError s \<and> errorcount s = 0 \<longrightarrow>
            \<not> unrecoverableError (spi_feed cfg (replicate 20 (SPI_SPECIAL_ALL_ONE cfg)) s)"
    using feed_ones_below [of s 20 cfg] by simp
  have C: "c \<noteq> SPI_SPECIAL_ALL_ONE cfg \<longrightarrow> errorcount (snd (processSpiSpecial cfg c s)) = 0"
    using i(2) by (simp add: processSpiSpecial_def Let_def)
  have D: "unrecoverableError t \<longrightarrow>
            readRaw cfg t = Some (None, t) \<and> writeRaw cfg fuel buf t = Some t
            \<and> unrecoverableError (snd (processSpiSpecial cfg c t))"
    by (simp add: readRaw_def writeRaw_def writeRaw_spi_faulted processSpiSpecial_def Let_def)
  have E: "\<not> unrecoverableError (end_session cfg t)"
    by (simp add: end_session_def)
  from A B C D E show ?thesis by blast
qed

theorem fault_latch_witness:
  "spi_inv example_core \<and> \<not> spi_prev_was_esc example_core
   \<and> \<not> unrecoverableError example_core \<and> errorcount example_core = 0
   \<and> unrecoverableError (spi_feed example_config (replicate 21 0xFF) example_core)
   \<and> \<not> unrecoverableError (spi_feed example_config (replicate 20 0xFF) example_core)
   \<and> errorcount (snd (processSpiSpecial example_config 0xF5 example_core)) = 0
   \<and> readRaw example_config (spi_feed example_config (replicate 21 0xFF) example_core)
       = Some (None, spi_feed example_config (replicate 21 0xFF) example_core)
   \<and> writeRaw example_config 1 (bytes ''AT'') (spi_feed example_config (replicate 21 0xFF) example_core)
       = Some (spi_feed example_config (replicate 21 0xFF) example_core)"
proof -
  have h: "spi_inv example_core" "\<not> spi_prev_was_esc example_core"
    "\<not> unrecoverableError example_core" "errorcount example_core = 0"
    by (simp_all add: spi_inv_def example_core_def)
  have a: "SPI_SPECIAL_ALL_ONE example_config = 0xFF" "(0xF5 :: byte) \<noteq> 0xFF"
    by (simp_all add: example_config_def)
  note t = fault_latch [OF h(1), of example_config "0xF5"
      "spi_feed example_config (replicate 21 0xFF) example_core" 1 "bytes ''AT''"]
  have l: "unrecoverableError (spi_feed example_config (replicate 21 0xFF) example_core)"
    using t h a by simp
  show ?thesis
    using t h a l by simp
qed

text \<open>
  The same at the level of \<open>readRaw\<close>: on SPI with the data-ready pin high, a poll
  that receives 64 all-ones bytes returns -1 with the fault latched.
\<close>

lemma processSpiSpecial_transport:
  "processSpiSpecial cfg c (s\<lparr>spi_rx := r, spi_tx := t\<rparr>)
     = (fst (processSpiSpecial cfg c s), (snd (processSpiSpecial cfg c s))\<lparr>spi_rx := r, spi_tx := t\<rparr>)"
  by (simp add: processSpiSpecial_def Let_def)

lemma processSpiSpecial_all_one:
  "\<not> spi_prev_was_esc s \<Longrightarrow> fst (processSpiSpecial cfg (SPI_SPECIAL_ALL_ONE cfg) s) = None
     \<and> \<not> spi_prev_was_esc (snd (processSpiSpecial cfg (SPI_SPECIAL_ALL_ONE cfg) s))
     \<and> spi_rx (snd (processSpiSpecial cfg (SPI_SPECIAL_ALL_ONE cfg) s)) = spi_rx s
     \<and> spi_tx (snd (processSpiSpecial cfg (SPI_SPECIAL_ALL_ONE cfg) s)) = spi_tx s"
  by (simp add: processSpiSpecial_def Let_def)

lemma readRaw_loop_all_ones:
  assumes "\<not> spi_prev_was_esc s"
    and "spi_rx s = replicate (Suc k) (SPI_SPECIAL_ALL_ONE cfg) @ rest"
  shows "readRaw_loop cfg k s =
     Some (None, (spi_feed cfg (replicate (Suc k) (SPI_SPECIAL_ALL_ONE cfg)) s)
                   \<lparr>spi_rx := rest,
                     spi_tx := spi_tx s @ replicate (Suc k) (SPI_SPECIAL_IDLE cfg)\<rparr>)"
  using assms
proof (induction k arbitrary: s)
  case 0
  let ?A = "SPI_SPECIAL_ALL_ONE cfg"
  have t: "transferSpi (SPI_SPECIAL_IDLE cfg) s
      = Some (?A, s\<lparr>spi_rx := rest, spi_tx := spi_tx s @ [SPI_SPECIAL_IDLE cfg]\<rparr>)"
    using 0(2) by (simp add: transferSpi_def)
  show ?case
    using processSpiSpecial_all_one [OF 0(1), of cfg]
    by (simp add: t processSpiSpecial_transport spi_feed_def prod_eq_iff)
next
  case (Suc k)
  let ?A = "SPI_SPECIAL_ALL_ONE cfg"
  let ?s1 = "snd (processSpiSpecial cfg ?A s)"
  let ?u = "?s1\<lparr>spi_rx := replicate (Suc k) ?A @ rest, spi_tx := spi_tx s @ [SPI_SPECIAL_IDLE cfg]\<rparr>"
  note one = processSpiSpecial_all_one [OF Suc.prems(1), of cfg]
  have t: "transferSpi (SPI_SPECIAL_IDLE cfg) s
      = Some (?A, s\<lparr>spi_rx := replicate (Suc k) ?A @ rest,
                      spi_tx := spi_tx s @ [SPI_SPECIAL_IDLE cfg]\<rparr>)"
    using Suc.prems(2) by (simp add: transferSpi_def)
  have step: "readRaw_loop cfg (Suc k) s = readRaw_loop cfg k ?u"
    using one by (simp add: t processSpiSpecial_transport)
  have u: "\<not> spi_prev_was_esc ?u" "spi_rx ?u = replicate (Suc k) ?A @ rest"
    using one by simp_all
  have f: "spi_feed cfg (replicate (Suc k) ?A) ?u
      = (spi_feed cfg (replicate (Suc (Suc k)) ?A) s)
          \<lparr>spi_rx := replicate (Suc k) ?A @ rest, spi_tx := spi_tx s @ [SPI_SPECIAL_IDLE cfg]\<rparr>"
  proof -
    have g: "\<And>bs v r t. spi_feed cfg bs (v\<lparr>spi_rx := r, spi_tx := t\<rparr>)
        = (spi_feed cfg bs v)\<lparr>spi_rx := r, spi_tx := t\<rparr>"
      subgoal for bs v r t
        by (induction bs arbitrary: v) (simp_all add: spi_feed_def processSpiSpecial_transport)
      done
    show ?thesis
      by (simp add: g) (simp add: spi_feed_def)
  qed
  have "readRaw_loop cfg k ?u =
     Some (None, (spi_feed cfg (replicate (Suc k) ?A) ?u)
                   \<lparr>spi_rx := rest,
                     spi_tx := spi_tx ?u @ replicate (Suc k) (SPI_SPECIAL_IDLE cfg)\<rparr>)"
    by (rule Suc.IH [OF u])
  also have "\<dots> = Some (None, (spi_feed cfg (replicate (Suc (Suc k)) ?A) s)
                   \<lparr>spi_rx := rest,
                     spi_tx := spi_tx s @ replicate (Suc (Suc k)) (SPI_SPECIAL_IDLE cfg)\<rparr>)"
    unfolding f by simp
  finally show ?case
    unfolding step .
qed

lemma readRaw_all_ones_latches:
  assumes "\<not> unrecoverableError s" and "\<not> serial s" and "ss_pin s \<noteq> INVALID_PIN cfg"
    and "data_ready_pin s \<noteq> INVALID_PIN cfg" and "pin_trace s = True # ps"
    and "spi_inv s" and "\<not> spi_prev_was_esc s"
    and "spi_rx s = replicate 64 (SPI_SPECIAL_ALL_ONE cfg) @ rest"
  shows "\<exists>s'. readRaw cfg s = Some (None, s') \<and> unrecoverableError s' \<and> spi_rx s' = rest"
proof -
  let ?t = "s\<lparr>pin_trace := ps\<rparr>"
  have r: "readRaw cfg s = readRaw_loop cfg 63 ?t"
    using assms(1-5) by (simp add: readRaw_def)
  have "\<not> spi_prev_was_esc ?t" "spi_rx ?t = replicate (Suc 63) (SPI_SPECIAL_ALL_ONE cfg) @ rest"
    using assms(7,8) by simp_all
  note l = readRaw_loop_all_ones [OF this]
  have "errorcount ?t \<le> 20" using assms(6) by (simp add: spi_inv_def)
  then have "unrecoverableError (spi_feed cfg (replicate (Suc 63) (SPI_SPECIAL_ALL_ONE cfg)) ?t)"
    using feed_ones_latch [of ?t "Suc 63" cfg] assms(7) by simp
  then show ?thesis
    unfolding r l by simp
qed

section \<open>Properties of writeCommand\<close>

text \<open>
  Claim C9, as amended. For every command there is one buffer \<open>sent\<close> such that, on
  every object and transport, \<open>writeCommand\<close> is \<open>writeRaw\<close> applied to \<open>sent\<close>,
  and returns what it logs. The buffer holds at most 126 bytes followed by CR LF: a
  command of up to 125 bytes whole, and of a longer command its first 125 bytes and one
  more byte. The truncation is logged exactly when the command is longer than 126 bytes,
  error logging is compiled in and an error stream is registered; the text logged is the
  truncated buffer. A serial transport without a latched fault transmits the bytes of
  \<open>sent\<close> as they are.
\<close>

theorem writeCommand_sends:
  "\<exists>logged sent.
      (\<forall>fuel s. writeCommand cfg fuel cmd s = map_option (Pair logged) (writeRaw cfg fuel sent s))
    \<and> (\<forall>fuel s. serial s \<and> \<not> unrecoverableError s \<longrightarrow>
          writeCommand cfg fuel cmd s = Some (logged, s\<lparr>serial_tx := serial_tx s @ sent\<rparr>))
    \<and> length sent = min (length cmd) 126 + 2
    \<and> take (min (length cmd) 125) sent = take 125 cmd
    \<and> drop (min (length cmd) 126) sent = [0x0D, 0x0A]
    \<and> (length cmd \<le> 125 \<longrightarrow> sent = cmd @ [0x0D, 0x0A])
    \<and> (logged \<noteq> None \<longleftrightarrow> 126 < length cmd \<and> GS_LOG_ERRORS cfg \<and> error_stream cfg)
    \<and> (\<forall>t. logged = Some t \<longrightarrow>
          t = bytes ''Command truncated: '' @ take 126 sent @ [0x0D, 0x0A])"
proof -
  define len where "len = (if length cmd > 126 then 126 else length cmd)"
  define sent where "sent = take len (take 125 cmd @ [0]) @ [0x0D, 0x0A :: byte]"
  define logged where "logged = (if length cmd > 126 \<and> GS_LOG_ERRORS cfg \<and> error_stream cfg
                    then Some (bytes ''Command truncated: ''
                       @ take len (take 125 cmd @ [0]) @ [0x0D, 0x0A])
                    else None)"
  have w: "\<forall>fuel s. writeCommand cfg fuel cmd s = map_option (Pair logged) (writeRaw cfg fuel sent s)"
    by (simp add: writeCommand_def Let_def sent_def logged_def len_def)
  have g: "\<forall>fuel s. serial s \<and> \<not> unrecoverableError s \<longrightarrow>
          writeCommand cfg fuel cmd s = Some (logged, s\<lparr>serial_tx := serial_tx s @ sent\<rparr>)"
    using w by (simp add: writeRaw_def)
  have a: "length sent = min (length cmd) 126 + 2"
    by (auto simp: sent_def len_def min_def)
  have b: "take (min (length cmd) 125) sent = take 125 cmd"
    by (auto simp: sent_def len_def min_def)
  have c: "drop (min (length cmd) 126) sent = [0x0D, 0x0A]"
    by (auto simp: sent_def len_def min_def)
  have d: "length cmd \<le> 125 \<longrightarrow> sent = cmd @ [0x0D, 0x0A]"
    by (auto simp: sent_def len_def)
  have e: "logged \<noteq> None \<longleftrightarrow> 126 < length cmd \<and> GS_LOG_ERRORS cfg \<and> error_stream cfg"
    by (simp add: logged_def)
  have f: "\<forall>t. logged = Some t \<longrightarrow>
          t = bytes ''Command truncated: '' @ take 126 sent @ [0x0D, 0x0A]"
    by (auto simp: logged_def sent_def len_def min_def)
  show ?thesis using w g a b c d e f by blast
qed

theorem writeCommand_sends_witness:
  "length (bytes ''AT+BDATA=1'') \<le> 125
   \<and> serial example_core \<and> \<not> unrecoverableError example_core
   \<and> writeCommand example_config 1 (bytes ''AT+BDATA=1'') example_core
      = Some (None, example_core\<lparr>serial_tx := bytes ''AT+BDATA=1'' @ [0x0D, 0x0A]\<rparr>)
   \<and> 126 < length (replicate 130 (0x41 :: byte))
   \<and> GS_LOG_ERRORS example_config \<and> error_stream example_config
   \<and> (\<exists>logged sent.
        writeCommand example_config 1 (replicate 130 0x41) example_core
          = Some (Some logged, example_core\<lparr>serial_tx := sent\<rparr>)
        \<and> length sent = 128 \<and> take 125 sent = replicate 125 0x41 \<and> drop 126 sent = [0x0D, 0x0A]
        \<and> logged = bytes ''Command truncated: '' @ take 126 sent @ [0x0D, 0x0A])
   \<and> \<not> serial spi_core \<and> ss_pin spi_core \<noteq> 0
   \<and> writeCommand example_config 1 (bytes ''AT'') spi_core
       = map_option (Pair None)
           (writeRaw_spi example_config 1 1024 (bytes ''AT'' @ [0x0D, 0x0A]) spi_core)
   \<and> map_option (\<lambda>r. spi_tx (snd r)) (writeCommand example_config 1 (bytes ''AT'') spi_core)
       = Some (bytes ''AT'' @ [0x0D, 0x0A])"
proof -
  have h: "serial example_core \<and> \<not> unrecoverableError example_core" "serial_tx example_core = []"
    by (simp_all add: example_core_def)
  have l: "length (bytes ''AT+BDATA=1'') \<le> 125" "126 < length (replicate 130 (0x41 :: byte))"
    "GS_LOG_ERRORS example_config" "error_stream example_config"
    "\<not> 126 < length (bytes ''AT+BDATA=1'')"
    "min (length (replicate 130 (0x41 :: byte))) 126 = 126"
    "min (length (replicate 130 (0x41 :: byte))) 125 = 125"
    "take 125 (replicate 130 (0x41 :: byte)) = replicate 125 0x41"
    "length (bytes ''AT'') \<le> 125" "\<not> 126 < length (bytes ''AT'')"
    by (simp_all add: bytes_def example_config_def)
  have p: "\<not> serial spi_core" "ss_pin spi_core \<noteq> 0"
    by (simp_all add: spi_core_def example_core_def)
  obtain lg1 st1 where
    1: "\<forall>fuel s. serial s \<and> \<not> unrecoverableError s \<longrightarrow>
          writeCommand example_config fuel (bytes ''AT+BDATA=1'') s
            = Some (lg1, s\<lparr>serial_tx := serial_tx s @ st1\<rparr>)"
      "st1 = bytes ''AT+BDATA=1'' @ [0x0D, 0x0A]" "lg1 = None"
    using writeCommand_sends [of example_config "bytes ''AT+BDATA=1''"] l(1,5)
    by blast
  have r1: "writeCommand example_config 1 (bytes ''AT+BDATA=1'') example_core
      = Some (None, example_core\<lparr>serial_tx := bytes ''AT+BDATA=1'' @ [0x0D, 0x0A]\<rparr>)"
    using 1(1) [rule_format, OF h(1), of 1] 1(2,3) h(2) by simp
  obtain lg2 st2 where
    2: "\<forall>fuel s. serial s \<and> \<not> unrecoverableError s \<longrightarrow>
          writeCommand example_config fuel (replicate 130 0x41) s
            = Some (lg2, s\<lparr>serial_tx := serial_tx s @ st2\<rparr>)"
      "length st2 = min (length (replicate 130 (0x41 :: byte))) 126 + 2"
      "take (min (length (replicate 130 (0x41 :: byte))) 125) st2 = take 125 (replicate 130 0x41)"
      "drop (min (length (replicate 130 (0x41 :: byte))) 126) st2 = [0x0D, 0x0A]"
      "lg2 \<noteq> None"
      "\<forall>t. lg2 = Some t \<longrightarrow> t = bytes ''Command truncated: '' @ take 126 st2 @ [0x0D, 0x0A]"
    using writeCommand_sends [of example_config "replicate 130 0x41"] l(2,3,4)
    by blast
  from 2(5) obtain t where t: "lg2 = Some t" by (cases lg2) auto
  have r2: "writeCommand example_config 1 (replicate 130 0x41) example_core
          = Some (Some t, example_core\<lparr>serial_tx := st2\<rparr>)
        \<and> length st2 = 128 \<and> take 125 st2 = replicate 125 0x41 \<and> drop 126 st2 = [0x0D, 0x0A]
        \<and> t = bytes ''Command truncated: '' @ take 126 st2 @ [0x0D, 0x0A]"
    using 2(1) [rule_format, OF h(1), of 1] 2(2,3,4,6) t h(2) unfolding l(6,7,8) by simp
  have e2: "\<exists>logged sent.
        writeCommand example_config 1 (replicate 130 0x41) example_core
          = Some (Some logged, example_core\<lparr>serial_tx := sent\<rparr>)
        \<and> length sent = 128 \<and> take 125 sent = replicate 125 0x41 \<and> drop 126 sent = [0x0D, 0x0A]
        \<and> logged = bytes ''Command truncated: '' @ take 126 sent @ [0x0D, 0x0A]"
    using r2 by blast
  obtain lg3 st3 where
    3: "\<forall>fuel s. writeCommand example_config fuel (bytes ''AT'') s
          = map_option (Pair lg3) (writeRaw example_config fuel st3 s)"
      "st3 = bytes ''AT'' @ [0x0D, 0x0A]" "lg3 = None"
    using writeCommand_sends [of example_config "bytes ''AT''"] l(9,10)
    by blast
  have r4: "writeCommand example_config 1 (bytes ''AT'') spi_core
       = map_option (Pair None)
           (writeRaw_spi example_config 1 1024 (bytes ''AT'' @ [0x0D, 0x0A]) spi_core)"
    using 3(1) [rule_format, of 1 spi_core] 3(2,3) p by (simp add: writeRaw_def)
  have 4: "map_option (\<lambda>r. spi_tx (snd r))
             (map_option (Pair None)
                (writeRaw_spi example_config 1 1024 (bytes ''AT'' @ [0x0D, 0x0A]) spi_core))
       = Some (bytes ''AT'' @ [0x0D, 0x0A])"
    by code_simp
  have r5: "map_option (\<lambda>r. spi_tx (snd r)) (writeCommand example_config 1 (bytes ''AT'') spi_core)
       = Some (bytes ''AT'' @ [0x0D, 0x0A])"
    unfolding r4 by (rule 4)
  show ?thesis
    using l(1,2,3,4) h(1) r1 e2 p r4 r5 by blast
qed

text \<open>
  Claim C9 as stated fails: a command of 127 bytes is not sent whole. On a serial
  transport 126 bytes and CR LF are sent: the first 125 bytes of the command, a NUL, and
  CR LF.
\<close>

theorem writeCommand_127_bytes:
  "length (replicate 127 (0x41 :: byte)) = 127
   \<and> map_option (\<lambda>r. serial_tx (snd r))
        (writeCommand example_config 1 (replicate 127 0x41) example_core)
     = Some (replicate 125 0x41 @ [0x00, 0x0D, 0x0A])"
  by (simp add: writeCommand_def writeRaw_def example_core_def)

section \<open>Properties of the ring buffer\<close>

lemma minus_one_mod: "1 < n \<Longrightarrow> (- 1) mod int n = int n - 1"
  using zmod_minus1 [of "int n"] by simp

text \<open>
  Claim C2, as amended. When the ring buffer is full and \<open>tail_frame\<close> still has
  bytes left (and converts to true), \<open>bufferIncomingData\<close> first drops the byte at the
  tail: the tail advances by one, \<open>tail_frame.length\<close> decreases by one and the error
  flag of the connection of \<open>tail_frame\<close> is set. This is the whole of
  \<open>dropData(1)\<close>, whatever the head is, as long as the cid of \<open>tail_frame\<close> is an
  index of the connection table. Then the new byte is stored at the head and the head
  advances to the old tail, as long as the head is an index of the array. Otherwise the
  function reads or writes outside an array, and the model does not follow it. The
  occupancy is one less than the size of the array before and after.
\<close>

theorem bufferIncomingData_full:
  assumes "1 < length (rx_data s)"
    and "(rx_data_head s + 1) mod length (rx_data s) = rx_data_tail s"
    and "length' (tail_frame s) \<noteq> 0" and "frame_valid cfg (tail_frame s)"
  shows "dropData cfg P k 1 s =
     (if unat (cid (tail_frame s)) < length (connections s) then
        Some (s\<lparr>rx_data_tail := (rx_data_tail s + 1) mod length (rx_data s),
                tail_frame := (tail_frame s)\<lparr>length' := length' (tail_frame s) - 1\<rparr>,
                connections := (connections s)[unat (cid (tail_frame s)) :=
                   (connections s ! unat (cid (tail_frame s)))\<lparr>error := True\<rparr>]\<rparr>)
      else None)
    \<and> bufferIncomingData cfg P k c s =
     (if unat (cid (tail_frame s)) < length (connections s)
         \<and> rx_data_head s < length (rx_data s) then
        Some (s\<lparr>rx_data_tail := (rx_data_tail s + 1) mod length (rx_data s),
                tail_frame := (tail_frame s)\<lparr>length' := length' (tail_frame s) - 1\<rparr>,
                connections := (connections s)[unat (cid (tail_frame s)) :=
                   (connections s ! unat (cid (tail_frame s)))\<lparr>error := True\<rparr>],
                rx_data := (rx_data s)[rx_data_head s := c],
                rx_data_head := rx_data_tail s\<rparr>)
      else None)
    \<and> occupancy s = length (rx_data s) - 1
    \<and> occupancy (s\<lparr>rx_data_tail := (rx_data_tail s + 1) mod length (rx_data s),
                   rx_data_head := rx_data_tail s\<rparr>) = length (rx_data s) - 1"
proof -
  let ?N = "length (rx_data s)"
  let ?d = "s\<lparr>rx_data_tail := (rx_data_tail s + 1) mod ?N,
              tail_frame := (tail_frame s)\<lparr>length' := length' (tail_frame s) - 1\<rparr>\<rparr>"
  have tl: "rx_data_tail s < ?N"
    using assms(1,2) by (metis mod_less_divisor less_trans zero_less_one)
  have ne: "rx_data_tail s \<noteq> rx_data_head s"
  proof
    assume e: "rx_data_tail s = rx_data_head s"
    then have h: "rx_data_head s < ?N" using tl by simp
    show False
    proof (cases "rx_data_head s + 1 < ?N")
      case True
      then show False using assms(2) e by simp
    next
      case False
      then have "rx_data_head s + 1 = ?N" using h by simp
      then show False using assms(1,2) e by simp
    qed
  qed
  have gf: "getFrameHeader cfg P k (ANY_CID cfg) s = Some (tail_frame s, s)"
    using assms(3) by (simp add: getFrameHeader_def)
  have gd: "getData cfg s = Some (Some (rx_data s ! rx_data_tail s), ?d)"
    using ne tl by (simp add: getData_def)
  have rd: "readData_any cfg P k s
      = Some (Some (rx_data s ! rx_data_tail s), Some (cid (tail_frame s)), ?d)"
    using gf gd assms(4) by (simp add: readData_any_def)
  have dd: "dropData cfg P k (Suc 0) s =
     (if unat (cid (tail_frame s)) < length (connections s) then
        Some (?d\<lparr>connections := (connections s)[unat (cid (tail_frame s)) :=
                   (connections s ! unat (cid (tail_frame s)))\<lparr>error := True\<rparr>]\<rparr>)
      else None)"
    using rd by (simp add: conn_at_def conn_upd_def)
  have A: "bufferIncomingData cfg P k c s =
     (if unat (cid (tail_frame s)) < length (connections s)
         \<and> rx_data_head s < length (rx_data s) then
        Some (?d\<lparr>connections := (connections s)[unat (cid (tail_frame s)) :=
                   (connections s ! unat (cid (tail_frame s)))\<lparr>error := True\<rparr>],
                rx_data := (rx_data s)[rx_data_head s := c],
                rx_data_head := rx_data_tail s\<rparr>)
      else None)"
    using dd assms(2) by (simp add: bufferIncomingData_def Let_def)
  have o1: "occupancy s = ?N - 1"
  proof -
    have "(int (rx_data_head s) - int (rx_data_tail s)) mod int ?N
        = (int (rx_data_head s) - int ((rx_data_head s + 1) mod ?N)) mod int ?N"
      using assms(2) by simp
    also have "\<dots> = (int (rx_data_head s) - (int (rx_data_head s) + 1)) mod int ?N"
      by (simp add: zmod_int mod_diff_right_eq)
    also have "\<dots> = (- 1) mod int ?N" by simp
    also have "\<dots> = int ?N - 1" using assms(1) by (rule minus_one_mod)
    finally show ?thesis using assms(1) by (simp add: occupancy_def)
  qed
  have o2: "occupancy (s\<lparr>rx_data_tail := (rx_data_tail s + 1) mod ?N,
                   rx_data_head := rx_data_tail s\<rparr>) = ?N - 1"
  proof -
    have "(int (rx_data_tail s) - int ((rx_data_tail s + 1) mod ?N)) mod int ?N
        = (int (rx_data_tail s) - (int (rx_data_tail s) + 1)) mod int ?N"
      by (simp add: zmod_int mod_diff_right_eq)
    also have "\<dots> = (- 1) mod int ?N" by simp
    also have "\<dots> = int ?N - 1" using assms(1) by (rule minus_one_mod)
    finally show ?thesis using assms(1) by (simp add: occupancy_def)
  qed
  from dd A o1 o2 show ?thesis by simp
qed

theorem bufferIncomingData_full_witness:
  "1 < length (rx_data full_ring)
   \<and> (rx_data_head full_ring + 1) mod length (rx_data full_ring) = rx_data_tail full_ring
   \<and> length' (tail_frame full_ring) = 40 \<and> frame_valid example_config (tail_frame full_ring)
   \<and> unat (cid (tail_frame full_ring)) < length (connections full_ring)
   \<and> rx_data_head full_ring < length (rx_data full_ring)
   \<and> rx_data_tail full_ring = 3 \<and> \<not> error (connections full_ring ! 1)
   \<and> (\<exists>t. bufferIncomingData example_config (processIncoming 0 example_config) 0 0x63 full_ring = Some t
         \<and> rx_data_tail t = 4 \<and> length' (tail_frame t) = 39 \<and> error (connections t ! 1)
         \<and> rx_data t ! 2 = 0x63 \<and> rx_data_head t = 3 \<and> occupancy t = 31)
   \<and> rx_data_head (full_ring\<lparr>rx_data_head := 32, rx_data_tail := 1\<rparr>) = 32
   \<and> length (rx_data (full_ring\<lparr>rx_data_head := 32, rx_data_tail := 1\<rparr>)) = 32
   \<and> (\<exists>t. dropData example_config (processIncoming 0 example_config) 0 1
              (full_ring\<lparr>rx_data_head := 32, rx_data_tail := 1\<rparr>) = Some t
         \<and> rx_data_tail t = 2 \<and> length' (tail_frame t) = 39 \<and> error (connections t ! 1))
   \<and> bufferIncomingData example_config (processIncoming 0 example_config) 0 0x63
        (full_ring\<lparr>rx_data_head := 32, rx_data_tail := 1\<rparr>) = None"
proof -
  let ?o = "full_ring\<lparr>rx_data_head := 32, rx_data_tail := 1\<rparr>"
  have h: "1 < length (rx_data full_ring)"
    "(rx_data_head full_ring + 1) mod length (rx_data full_ring) = rx_data_tail full_ring"
    "length' (tail_frame full_ring) \<noteq> 0" "frame_valid example_config (tail_frame full_ring)"
    by (simp_all add: full_ring_def example_core_def example_config_def no_frame_def)
  have g: "1 < length (rx_data ?o)"
    "(rx_data_head ?o + 1) mod length (rx_data ?o) = rx_data_tail ?o"
    "length' (tail_frame ?o) \<noteq> 0" "frame_valid example_config (tail_frame ?o)"
    by (simp_all add: full_ring_def example_core_def example_config_def no_frame_def)
  have v: "length' (tail_frame full_ring) = 40" "rx_data_tail full_ring = 3"
    "\<not> error (connections full_ring ! 1)" "rx_data_head full_ring = 2"
    "length (rx_data full_ring) = 32" "cid (tail_frame full_ring) = 1"
    "length (connections full_ring) = 16"
    by (simp_all add: full_ring_def example_core_def no_frame_def no_connection_def)
  have c: "unat (cid (tail_frame full_ring)) < length (connections full_ring)"
    "rx_data_head full_ring < length (rx_data full_ring)"
    using v by simp_all
  note t = bufferIncomingData_full [OF h, of "processIncoming 0 example_config" 0 "0x63"]
  note u = bufferIncomingData_full [OF g, of "processIncoming 0 example_config" 0 "0x63"]
  have e: "\<exists>t. bufferIncomingData example_config (processIncoming 0 example_config) 0 0x63 full_ring = Some t
         \<and> rx_data_tail t = 4 \<and> length' (tail_frame t) = 39 \<and> error (connections t ! 1)
         \<and> rx_data t ! 2 = 0x63 \<and> rx_data_head t = 3 \<and> occupancy t = 31"
    using t v by (simp add: occupancy_def)
  have f: "\<exists>t. dropData example_config (processIncoming 0 example_config) 0 1 ?o = Some t
         \<and> rx_data_tail t = 2 \<and> length' (tail_frame t) = 39 \<and> error (connections t ! 1)"
    using u v by simp
  have n: "bufferIncomingData example_config (processIncoming 0 example_config) 0 0x63 ?o = None"
    using u v by simp
  have r: "rx_data_head ?o = 32" "length (rx_data ?o) = 32" using v by simp_all
  show ?thesis using h(1,2,4) v(1,2,3) c e r f n by blast
qed

text \<open>
  Claim C2 as stated fails when the buffer is full and \<open>tail_frame\<close> is used up: the
  header of the next frame is loaded from the buffer first, so the tail advances by the
  size of the header and one (from 3 to 14), and \<open>tail_frame.length\<close> goes from 0 to 24.
  The second run above reaches such a state, and the next byte received does the same.
\<close>

theorem bufferIncomingData_loads_header_first:
  "length' (tail_frame queued_header_ring) = 0
   \<and> rx_data_tail queued_header_ring = 3
   \<and> (rx_data_head queued_header_ring + 1) mod length (rx_data queued_header_ring)
       = rx_data_tail queued_header_ring
   \<and> map_option (\<lambda>t. (rx_data_tail t, length' (tail_frame t), cid (tail_frame t)))
        (bufferIncomingData example_config (processIncoming 0 example_config) 0 0x63
           queued_header_ring)
     = Some (14, 24, 2)
   \<and> map_option (\<lambda>t. (rx_data_head t, rx_data_tail t, length' (tail_frame t))) queued_scenario
     = Some (2, 3, 0)
   \<and> map_option (\<lambda>t. (rx_data_head t, rx_data_tail t, length' (tail_frame t), cid (tail_frame t)))
        (queued_scenario \<bind> receive example_config [0x63])
     = Some (3, 14, 24, 2)"
  by code_simp

text \<open>
  A head outside the array is reached from the initial object: \<open>bufferFrameHeader\<close>
  adds the size of the header to the head without reducing it, so a header written at
  cell 22 of 32 leaves the head at 32. The buffer is then full by the test of
  \<open>bufferIncomingData\<close>, and the next byte of the frame is stored outside the array.
\<close>

lemma head_past_the_array:
  "map_option (\<lambda>t. (rx_data_head t, rx_data_tail t, length' (tail_frame t), length (rx_data t)))
        overrun_scenario
     = Some (32, 1, 21, 32)
   \<and> (overrun_scenario \<bind> receive example_config [0x63]) = None"
  by code_simp

text \<open>
  \<open>bufferFrameHeader\<close> where it does what claim C6 says: on an empty buffer; on a
  buffer with room at the head; and on a buffer whose data does not wrap, with the head
  moved to 0.
\<close>

lemma bufferFrameHeader_empty:
  "rx_data_head s = rx_data_tail s \<Longrightarrow>
     bufferFrameHeader cfg P k s = Some (s\<lparr>tail_frame := head_frame s\<rparr>)"
  by (simp add: bufferFrameHeader_def)

lemma bufferFrameHeader_fits:
  assumes "rx_data_head s \<noteq> rx_data_tail s"
    and "rx_data_head s + frame_size cfg \<le> length (rx_data s)"
    and "frame_size cfg \<le> nat ((int (rx_data_tail s) - int (rx_data_head s) - 1)
                                   mod int (length (rx_data s))) mod 256"
  shows "bufferFrameHeader cfg P k s =
     Some (s\<lparr>rx_data := take (rx_data_head s) (rx_data s)
                           @ take (frame_size cfg) (frame_bytes cfg (head_frame s))
                           @ drop (rx_data_head s + frame_size cfg) (rx_data s),
             rx_data_head := (rx_data_head s + frame_size cfg) mod 256\<rparr>)"
proof -
  have "\<not> (frame_size cfg \<le> length (rx_data s)
           \<and> rx_data_head s > length (rx_data s) - frame_size cfg)"
    using assms(2) by auto
  then show ?thesis
    using assms by (simp add: bufferFrameHeader_def Let_def not_less)
qed

lemma bufferFrameHeader_relocates:
  assumes "rx_data_head s \<noteq> rx_data_tail s"
    and "frame_size cfg \<le> length (rx_data s)"
    and "length (rx_data s) - frame_size cfg < rx_data_head s"
    and "rx_data_tail s \<le> rx_data_head s" and "rx_data_tail s \<noteq> 0"
    and "frame_size cfg \<le> nat ((int (rx_data_tail s) - 1) mod int (length (rx_data s))) mod 256"
  shows "bufferFrameHeader cfg P k s =
     Some (s\<lparr>rx_data := take (frame_size cfg) (frame_bytes cfg (head_frame s))
                           @ drop (frame_size cfg) (rx_data s),
             rx_data_head := frame_size cfg mod 256\<rparr>)"
  using assms by (simp add: bufferFrameHeader_def Let_def not_less)

text \<open>
  Claim C6 at a buffer whose payload wraps (head 24, tail 31, 25 bytes unread): the head
  moves to 0 and the header is written over the cells 0 to 9, which hold unread payload.
  No byte is dropped from the tail, \<open>tail_frame.length\<close> stays 25 and no error flag is
  set: \<open>dropData\<close> is called with \<^verbatim>\<open>rx_data_tail - rx_data_tail\<close>, which is 0.
  The first run above reaches such a state; after the header of a third frame, the
  application reads for cid 1 the byte 100 and then the bytes of the header, in place of
  the payload 100 to 124, and no error flag is set.
\<close>

theorem bufferFrameHeader_overwrites_wrapped_data:
  "rx_data_head wrapped_ring = 24 \<and> rx_data_tail wrapped_ring = 31
   \<and> occupancy wrapped_ring = 25 \<and> length' (tail_frame wrapped_ring) = 25
   \<and> map_option (\<lambda>t. (rx_data_head t, rx_data_tail t, length' (tail_frame t),
                        take 10 (rx_data t), filter error (connections t)))
        (bufferFrameHeader example_config (processIncoming 0 example_config) 0 wrapped_ring)
     = Some (10, 31, 25, example_frame_bytes (head_frame wrapped_ring), [])
   \<and> map_option (\<lambda>t. (rx_data_head t, rx_data_tail t, length' (tail_frame t), occupancy t))
        wrapped_scenario
     = Some (24, 31, 25, 25)
   \<and> map_option (\<lambda>(got, t). (got, filter error (connections t)))
        (wrapped_scenario \<bind> receive example_config ([0x1B] @ bytes ''Z20005'')
           \<bind> consume example_config 1 25)
     = Some ([100, 2, 5, 0, 0, 0, 0, 0, 0, 0, 0], [])"
  by code_simp

section \<open>Properties of the response buffer\<close>








lemma response_line_end_after_drop:
  assumes "dropped_data l" and "resp_inv l"
  shows "case response_line_end cfg keep_data callback l s of
           None \<Rightarrow> processResponseLine cfg
                      (take ((resp_read l - line_start l) mod 256) (drop (line_start l) (resp_buf l)))
                      (connect_cid_cell l) = None
                   \<or> processDisassociation cfg s = None
         | Some (r, l2, s2) \<Rightarrow>
             dropped_data l2 \<and> line_start l2 = line_start l \<and> resp_inv l2
             \<and> resp_buf l2 = resp_buf l \<and> (r \<noteq> None \<longrightarrow> resp_len l2 = line_start l)"
proof (cases "resp_read l - line_start l = 0 \<or> skip_line l")
  case True
  then show ?thesis
    using assms by (auto simp: response_line_end_def resp_inv_def)
next
  case False
  let ?line = "take ((resp_read l - line_start l) mod 256) (drop (line_start l) (resp_buf l))"
  show ?thesis
  proof (cases "processResponseLine cfg ?line (connect_cid_cell l)")
    case None
    then have "response_line_end cfg keep_data callback l s = None"
      using False by (simp add: response_line_end_def Let_def)
    then show ?thesis using None by simp
  next
    case (Some p)
    obtain res cc where p: "p = (res, cc)" by (cases p)
    show ?thesis
    proof (cases "if res = GS_LINK_LOST then processDisassociation cfg s else Some s")
      case None
      then have n: "processDisassociation cfg s = None" by (auto split: if_splits)
      have "response_line_end cfg keep_data callback l s = None"
        using False Some p None by (simp add: response_line_end_def Let_def)
      then show ?thesis using n by simp
    next
      case d: (Some s1)
      let ?l1 = "l\<lparr>skip_line := False, connect_cid_cell := cc\<rparr>"
      let ?l2 = "if keep_data \<and> callback \<and> res = GS_UNKNOWN_RESPONSE
                 then ?l1\<lparr>callback_lines := callback_lines ?l1
                           @ [take (resp_read ?l1 - line_start ?l1) (drop (line_start ?l1) (resp_buf ?l1))]\<rparr>
                 else ?l1"
      let ?l3 = "?l2\<lparr>resp_read := line_start ?l2\<rparr>"
      have e: "response_line_end cfg keep_data callback l s =
          (if res \<noteq> GS_UNKNOWN_RESPONSE \<and> res \<noteq> GS_CON_SUCCESS
           then Some (Some res, ?l3\<lparr>resp_len := resp_read ?l3\<rparr>, s1)
           else Some (None, ?l3, s1))"
        using False Some p d assms(1) by (simp add: response_line_end_def Let_def)
      show ?thesis
        using assms unfolding e by (auto simp: resp_inv_def)
    qed
  qed
qed

lemma resp_inv_line_end:
  assumes "resp_inv l" and "response_line_end cfg keep_data callback l s = Some (r, l', s')"
  shows "resp_inv l'"
proof (cases "dropped_data l")
  case True
  from response_line_end_after_drop [OF True assms(1), where cfg = cfg and keep_data = keep_data and callback = callback and s = s] assms(2)
  show ?thesis by simp
next
  case nd: False
  show ?thesis
  proof (cases "resp_read l - line_start l = 0 \<or> skip_line l")
    case True
    then show ?thesis
      using assms by (auto simp: response_line_end_def resp_inv_def split: if_splits)
  next
    case False
    let ?line = "take ((resp_read l - line_start l) mod 256) (drop (line_start l) (resp_buf l))"
    from False assms(2) obtain res cc where
      p: "processResponseLine cfg ?line (connect_cid_cell l) = Some (res, cc)"
      by (cases "processResponseLine cfg ?line (connect_cid_cell l)")
        (auto simp: response_line_end_def Let_def)
    from False assms(2) p obtain s1 where
      d: "(if res = GS_LINK_LOST then processDisassociation cfg s else Some s) = Some s1"
      by (cases "if res = GS_LINK_LOST then processDisassociation cfg s else Some s")
        (auto simp: response_line_end_def Let_def)
    let ?l1 = "l\<lparr>skip_line := False, connect_cid_cell := cc\<rparr>"
    show ?thesis
    proof (cases "keep_data \<and> \<not> callback \<and> res = GS_UNKNOWN_RESPONSE")
      case True
      have e: "response_line_end cfg keep_data callback l s = do {
          l2 \<leftarrow> (if resp_read ?l1 < resp_len ?l1 then resp_push 0x0D ?l1 else Some ?l1);
          l3 \<leftarrow> (if resp_read l2 < resp_len l2 then resp_push 0x0A l2 else Some l2);
          Some (None, l3\<lparr>line_start := resp_read l3\<rparr>, s1) }"
        using False p d nd True by (simp add: response_line_end_def Let_def)
      show ?thesis
        using assms unfolding e
        by (auto simp: resp_inv_def resp_push_def split: if_splits bind_splits)
    next
      case k: False
      let ?l2 = "if keep_data \<and> callback \<and> res = GS_UNKNOWN_RESPONSE
                 then ?l1\<lparr>callback_lines := callback_lines ?l1
                           @ [take (resp_read ?l1 - line_start ?l1) (drop (line_start ?l1) (resp_buf ?l1))]\<rparr>
                 else ?l1"
      let ?l3 = "?l2\<lparr>resp_read := line_start ?l2\<rparr>"
      have e: "response_line_end cfg keep_data callback l s =
          (if res \<noteq> GS_UNKNOWN_RESPONSE \<and> res \<noteq> GS_CON_SUCCESS
           then Some (Some res, ?l3\<lparr>resp_len := resp_read ?l3\<rparr>, s1)
           else Some (None, ?l3, s1))"
        using False p d k by (auto simp: response_line_end_def Let_def)
      show ?thesis
        using assms unfolding e by (auto simp: resp_inv_def split: if_splits)
    qed
  qed
qed

lemma resp_inv_initial:
  "len \<le> length buf \<Longrightarrow>
     resp_inv \<lparr>resp_buf = buf, resp_len = len, resp_read = 0, line_start = 0,
               dropped_data = False, skip_line = False, connect_cid_cell = connect_cid,
               callback_lines = []\<rparr>"
  by (simp add: resp_inv_def)




text \<open>
  The two branches are the branches of the loop of \<open>readResponseInternal\<close> for a byte
  read from a serial transport in the idle state.
\<close>

lemma readResponse_loop_data_byte:
  assumes "\<not> unrecoverableError s" and "serial s" and "serial_rx s = b # bs"
    and "rx_state s = GS_RX_IDLE" and "b \<noteq> 0x1B" and "b \<noteq> 0x0D" and "b \<noteq> 0x0A"
  shows "readResponse_loop (Suc n) cfg start keep_data callback l s =
     response_data_byte cfg b l \<bind>
       (\<lambda>l1. readResponse_loop n cfg start keep_data callback l1 (s\<lparr>serial_rx := bs\<rparr>))"
  using assms by (simp add: readRaw_def)

lemma readResponse_loop_line_end:
  assumes "\<not> unrecoverableError s" and "serial s" and "serial_rx s = b # bs"
    and "rx_state s = GS_RX_IDLE" and "b = 0x0D \<or> b = 0x0A"
  shows "readResponse_loop (Suc n) cfg start keep_data callback l s =
     response_line_end cfg keep_data callback l (s\<lparr>serial_rx := bs\<rparr>) \<bind>
       (\<lambda>(r, l1, s2). case r of
            Some res \<Rightarrow> Some (res, l1, s2)
          | None \<Rightarrow> readResponse_loop n cfg start keep_data callback l1 s2)"
  using assms by (auto simp: readRaw_def)

text \<open>
  A run of \<open>readResponse\<close> on a line of data followed by the reply "0". With room for
  both, the reply is returned with the data. With a buffer of five bytes, which the data
  fills, the byte of the reply is stored at \<^verbatim>\<open>buf[5]\<close>: in an array of five cells that
  is outside the array; in an array of six cells the line parsed in place of the reply
  is the line feed left behind, and the call ends on the timeout with the fault latched.
\<close>

lemma reply_lost_after_eviction:
  "map_option (\<lambda>(res, l, s). (res, unrecoverableError s, take (resp_len l) (resp_buf l)))
        (readResponseInternal 20 example_config (replicate 7 0) 7 None True False reply_after_data)
     = Some (GS_SUCCESS, False, bytes ''ABC'' @ [0x0D, 0x0A])
   \<and> readResponseInternal 20 example_config (replicate 5 0) 5 None True False reply_after_data
     = None
   \<and> map_option (\<lambda>(res, l, s). (res, unrecoverableError s))
        (readResponseInternal 20 example_config (replicate 6 0) 5 None True False reply_after_data)
     = Some (GS_UNRECOVERABLE_ERROR, True)"
  by code_simp

end
